theory Spec2Isabelle
  imports Complex_Main "HOL-Library.AList"
begin

section \<open>The node model of the diagram editor (BaseNodeModel.ts)\<close>

text \<open>
  A shallow embedding of \<^verbatim>\<open>packages/core/src/model/node/BaseNodeModel.ts\<close>.
  JavaScript numbers are modelled as \<^typ>\<open>real\<close> (ideal arithmetic, no rounding, no NaN),
  strings as \<^typ>\<open>string\<close>, a mutable object as a record that each method takes and
  returns, and a thrown \<^verbatim>\<open>TypeError\<close> as the left summand of a sum type.
\<close>

subsection \<open>Values of the free-form property map\<close>

datatype jsval =
    JUndefined
  | JNull
  | JBool bool
  | JNum real
  | JStr string
  | JArr "jsval list"
  | JObj "(string \<times> jsval) list"

text \<open>
  An object \<^verbatim>\<open>Record<string, unknown>\<close> as the list of its own entries. JavaScript
  enumerates the keys of an object in a fixed order: first the keys that are array indices,
  in ascending order, then the other keys in the order in which they were created.
  \<open>objectOf\<close> below builds the list in that order.
\<close>

type_synonym props = "(string \<times> jsval) list"

text \<open>Truthiness of a value, and lodash \<^verbatim>\<open>isNil\<close>.\<close>

fun truthy :: "jsval \<Rightarrow> bool" where
  "truthy JUndefined = False"
| "truthy JNull = False"
| "truthy (JBool b) = b"
| "truthy (JNum r) = (r \<noteq> 0)"
| "truthy (JStr s) = (s \<noteq> [])"
| "truthy (JArr vs) = True"
| "truthy (JObj ps) = True"

fun isNil :: "jsval \<Rightarrow> bool" where
  "isNil JUndefined = True"
| "isNil JNull = True"
| "isNil v = False"

text \<open>
  lodash \<^verbatim>\<open>has\<close> for a key that names a property (a key with a dot or a bracket that is
  no own key is read by lodash as a path into nested values), and the lookup
  \<^verbatim>\<open>obj[key]\<close>.
\<close>

definition has_key :: "props \<Rightarrow> string \<Rightarrow> bool" where
  "has_key ps key = (key \<in> set (map fst ps))"

definition getProp :: "props \<Rightarrow> string \<Rightarrow> jsval" where
  "getProp ps key = (case map_of ps key of None \<Rightarrow> JUndefined | Some v \<Rightarrow> v)"

text \<open>
  The read \<^verbatim>\<open>v?.key\<close> of one of the keys \<^verbatim>\<open>multiple\<close>, \<^verbatim>\<open>max\<close>, \<^verbatim>\<open>verticle\<close>:
  only an object holds them; of \<^verbatim>\<open>undefined\<close> and \<^verbatim>\<open>null\<close> the optional chaining
  gives \<^verbatim>\<open>undefined\<close>, as does the plain read of a primitive or an array.
\<close>

fun getField :: "jsval \<Rightarrow> string \<Rightarrow> jsval" where
  "getField (JObj ps) key = getProp ps key"
| "getField v key = JUndefined"

subsection \<open>Decimal numerals and the order of the keys of an object\<close>

text \<open>The decimal numeral of \<^verbatim>\<open>${idx}\<close> in a template string, and of an array index.\<close>

definition digit_char :: "nat \<Rightarrow> char" where
  "digit_char d = ''0123456789'' ! d"

fun string_of_nat :: "nat \<Rightarrow> string" where
  "string_of_nat n =
     (if n < 10 then [digit_char n]
      else string_of_nat (n div 10) @ [digit_char (n mod 10)])"

declare string_of_nat.simps [simp del]

definition digit_of :: "char \<Rightarrow> nat option" where
  "digit_of c =
     map_of [(CHR ''0'', 0), (CHR ''1'', 1), (CHR ''2'', 2), (CHR ''3'', 3), (CHR ''4'', 4),
             (CHR ''5'', 5), (CHR ''6'', 6), (CHR ''7'', 7), (CHR ''8'', 8), (CHR ''9'', 9)] c"

fun parseNat :: "string \<Rightarrow> nat \<Rightarrow> nat option" where
  "parseNat [] acc = Some acc"
| "parseNat (c # cs) acc =
     (case digit_of c of None \<Rightarrow> None | Some d \<Rightarrow> parseNat cs (10 * acc + d))"

text \<open>
  A key is an array index when it is the canonical numeral (no sign, no leading zero) of
  an integer below \<^verbatim>\<open>2^32 - 1\<close>.
\<close>

definition arrayIndex :: "string \<Rightarrow> nat option" where
  "arrayIndex key =
     (if key = [] then None
      else (case parseNat key 0 of
              None \<Rightarrow> None
            | Some i \<Rightarrow> if i < 4294967295 \<and> string_of_nat i = key then Some i else None))"

text \<open>
  Creating the key \<open>key\<close>, an array index \<open>i\<close>, in an object: it comes after the array
  indices below it and before every other key.
\<close>

fun insertIndexed :: "nat \<Rightarrow> string \<Rightarrow> jsval \<Rightarrow> props \<Rightarrow> props" where
  "insertIndexed i key val [] = [(key, val)]"
| "insertIndexed i key val ((k, v) # ps) =
     (case arrayIndex k of
        Some j \<Rightarrow> if j < i then (k, v) # insertIndexed i key val ps
                  else (key, val) # (k, v) # ps
      | None \<Rightarrow> (key, val) # (k, v) # ps)"

text \<open>
  The assignment \<^verbatim>\<open>obj[key] = val\<close>: a key the object has keeps its place; a new key is
  created, among the array indices or after all keys.
\<close>

definition setKey :: "string \<Rightarrow> jsval \<Rightarrow> props \<Rightarrow> props" where
  "setKey key val ps =
     (if key \<in> set (map fst ps) then AList.update key val ps
      else (case arrayIndex key of
              Some i \<Rightarrow> insertIndexed i key val ps
            | None \<Rightarrow> ps @ [(key, val)]))"

text \<open>
  The object that a sequence of entries builds when each is created or overwritten in
  turn, as an object spread and a copy made entry by entry do.
\<close>

definition objectOf :: "props \<Rightarrow> props" where
  "objectOf entries = fold (\<lambda>(key, val). setKey key val) entries []"

subsection \<open>Text labels and the label configuration\<close>

record label =
  text_id :: string
  relateId :: string
  text_value :: string
  content :: string
  text_x :: real
  text_y :: real
  draggable :: bool
  editable :: bool
  isFocus :: bool

text \<open>
  The field \<^verbatim>\<open>text: LabelType | LabelType[]\<close>. \<open>TextUndefined\<close> is the value
  \<^verbatim>\<open>undefined\<close> (what \<^verbatim>\<open>formatText\<close> leaves for an empty list in single mode);
  \<open>TextOther\<close> stands for an object that is neither a list nor a label record, such as
  the result of spreading a list into an object literal: it has no \<^verbatim>\<open>length\<close> and no
  \<^verbatim>\<open>push\<close>, and its \<^verbatim>\<open>value\<close> is missing or empty.
\<close>

datatype text_field =
    TextUndefined
  | TextRecord label
  | TextArray "label list"
  | TextOther

text \<open>
  The type \<^verbatim>\<open>LabelConfig\<close> of \<^verbatim>\<open>properties.labelConfig\<close>; \<open>max_labels\<close> is the
  optional \<^verbatim>\<open>max\<close> count.
\<close>

record label_config =
  multiple :: bool
  max_labels :: "nat option"
  verticle :: bool

text \<open>lodash \<^verbatim>\<open>isArray\<close> and \<^verbatim>\<open>isObject\<close> on the text field, and its truthiness.\<close>

fun isArray :: "text_field \<Rightarrow> bool" where
  "isArray (TextArray ls) = True"
| "isArray t = False"

fun isObject :: "text_field \<Rightarrow> bool" where
  "isObject TextUndefined = False"
| "isObject t = True"

fun truthy_text :: "text_field \<Rightarrow> bool" where
  "truthy_text TextUndefined = False"
| "truthy_text t = True"

subsection \<open>Anchors and the transform descriptor\<close>

record anchor =
  anchor_id :: string
  anchor_x :: real
  anchor_y :: real
  anchor_rest :: props

text \<open>
  An entry of \<^verbatim>\<open>anchorsOffset\<close>: the legacy pair \<^verbatim>\<open>[dx, dy]\<close> or a record
  \<^verbatim>\<open>{id?, x, y, ...}\<close>.
\<close>

datatype anchors_offset_item =
    OffsetTuple real real
  | OffsetPoint "string option" real real props

text \<open>
  The affine matrix \<^verbatim>\<open>[[a, b, 0], [c, d, 0], [e, f, 1]]\<close>, acting on row vectors
  \<^verbatim>\<open>[x, y, 1]\<close>.
\<close>

record matrix =
  m_a :: real
  m_b :: real
  m_c :: real
  m_d :: real
  m_e :: real
  m_f :: real

subsection \<open>The node\<close>

text \<open>
  The data fields of a node. Rules receive the node they are asked about; as a rule is
  itself a field of the node, a rule sees the data fields only (\<open>node_data\<close>), and the
  node proper extends them with its rule lists and flags. The boolean UI flags, the style
  map and the theme play no part in the operations below and are left out, as are the
  constructor and \<^verbatim>\<open>formatText\<close>: a node is taken as it stands after construction.
\<close>

record node_data =
  node_id :: string
  node_type :: string
  node_x :: real
  node_y :: real
  node_text :: text_field
  properties :: props
  width :: real
  height :: real
  anchorsOffset :: "anchors_offset_item list"
  node_rotate :: real
  transform :: "matrix option"
  zIndex :: real

text \<open>\<^verbatim>\<open>Model.IsAllowMove\<close> or a boolean: what a move rule returns.\<close>

datatype move_result =
    MoveBool bool
  | MoveAxes bool bool

type_synonym move_rule = "node_data \<Rightarrow> real \<Rightarrow> real \<Rightarrow> move_result"

text \<open>
  \<^verbatim>\<open>Model.ConnectRule\<close>. \<open>validate\<close> takes the receiver (\<^verbatim>\<open>this\<close> of
  \<^verbatim>\<open>validate.call\<close>) first, then source, target, the two optional anchors and the
  optional edge id.
\<close>

record connect_rule =
  message :: string
  validate :: "node_data \<Rightarrow> node_data \<Rightarrow> node_data \<Rightarrow> anchor option \<Rightarrow> anchor option
    \<Rightarrow> string option \<Rightarrow> bool"

record node = node_data +
  targetRules :: "connect_rule list"
  sourceRules :: "connect_rule list"
  moveRules :: "move_rule list"
  hasSetTargetRules :: bool
  hasSetSourceRules :: bool

text \<open>
  \<^verbatim>\<open>properties.labelConfig\<close>, read as the source casts it
  (\<^verbatim>\<open>labelConfig as LabelConfig\<close>): \<^verbatim>\<open>multiple\<close> and \<^verbatim>\<open>verticle\<close> by their
  truthiness, \<^verbatim>\<open>max\<close> as the count that \<^verbatim>\<open>this.text.length >= max\<close> compares with.
  A length is \<^verbatim>\<open>>= max\<close> exactly when it is at least the ceiling of \<^verbatim>\<open>max\<close>, which
  for a count is \<^verbatim>\<open>max\<close> itself; \<open>None\<close> is \<^verbatim>\<open>isNil(max)\<close> (or a value that is
  no number, which the type excludes). Where the property is \<^verbatim>\<open>undefined\<close> or
  \<^verbatim>\<open>null\<close>, every field reads as absent, as with the optional chaining of
  \<^verbatim>\<open>moveText\<close>.
\<close>

fun maxOf :: "jsval \<Rightarrow> nat option" where
  "maxOf (JNum r) = Some (nat \<lceil>r\<rceil>)"
| "maxOf v = None"

definition labelConfig :: "node \<Rightarrow> label_config" where
  "labelConfig n =
     (let conf = getProp (properties n) ''labelConfig''
      in \<lparr>multiple = truthy (getField conf ''multiple''),
          max_labels = maxOf (getField conf ''max''),
          verticle = truthy (getField conf ''verticle'')\<rparr>)"

text \<open>What the node reads from its owning graph model.\<close>

datatype overlap_mode = DEFAULT | INCREASE

record graph =
  nodeMoveRules :: "move_rule list"
  overlapMode :: overlap_mode

text \<open>\<^verbatim>\<open>this\<close> as a rule sees it.\<close>

definition this_data :: "node \<Rightarrow> node_data" where
  "this_data n = node_data.truncate n"

subsection \<open>Move rules\<close>

text \<open>
  The loop of \<^verbatim>\<open>isAllowMoveNode\<close>, with \<^verbatim>\<open>isAllowMoveX\<close> and \<^verbatim>\<open>isAllowMoveY\<close>
  as accumulators: a falsy result, or a pair with both axes false, returns
  \<^verbatim>\<open>false\<close> at once.
\<close>

fun moveRuleLoop :: "node_data \<Rightarrow> real \<Rightarrow> real \<Rightarrow> move_rule list \<Rightarrow> bool \<Rightarrow> bool \<Rightarrow> move_result" where
  "moveRuleLoop this deltaX deltaY [] isAllowMoveX isAllowMoveY =
     MoveAxes isAllowMoveX isAllowMoveY"
| "moveRuleLoop this deltaX deltaY (rule # rules) isAllowMoveX isAllowMoveY =
     (case rule this deltaX deltaY of
        MoveBool r \<Rightarrow>
          if \<not> r then MoveBool False
          else moveRuleLoop this deltaX deltaY rules isAllowMoveX isAllowMoveY
      | MoveAxes rx ry \<Rightarrow>
          if \<not> rx \<and> \<not> ry then MoveBool False
          else moveRuleLoop this deltaX deltaY rules (isAllowMoveX \<and> rx) (isAllowMoveY \<and> ry))"

definition isAllowMoveNode :: "graph \<Rightarrow> real \<Rightarrow> real \<Rightarrow> node \<Rightarrow> move_result" where
  "isAllowMoveNode g deltaX deltaY n =
     moveRuleLoop (this_data n) deltaX deltaY (moveRules n @ nodeMoveRules g) True True"

definition isAllowMoveByXORY :: "graph \<Rightarrow> real \<Rightarrow> real \<Rightarrow> bool \<Rightarrow> node \<Rightarrow> bool \<times> bool" where
  "isAllowMoveByXORY g deltaX deltaY isIgnoreRule n =
     (if isIgnoreRule then (True, True)
      else (case isAllowMoveNode g deltaX deltaY n of
              MoveBool r \<Rightarrow> (r, r)
            | MoveAxes rx ry \<Rightarrow> (rx, ry)))"

text \<open>JavaScript truthiness of the result of \<^verbatim>\<open>isAllowMoveNode\<close>: an object is truthy.\<close>

fun truthy_move :: "move_result \<Rightarrow> bool" where
  "truthy_move (MoveBool r) = r"
| "truthy_move (MoveAxes rx ry) = True"

subsection \<open>Moving the node and its labels\<close>

definition shiftLabel :: "real \<Rightarrow> real \<Rightarrow> label \<Rightarrow> label" where
  "shiftLabel deltaX deltaY l = l\<lparr>text_x := text_x l + deltaX, text_y := text_y l + deltaY\<rparr>"

text \<open>
  \<^verbatim>\<open>moveText\<close>, which reads \<^verbatim>\<open>properties.labelConfig\<close> anew at each call and tests
  \<^verbatim>\<open>labelConfig?.multiple\<close> against the shape of the text field. In single mode a list
  is an object too: spreading it and adding \<^verbatim>\<open>x\<close>, \<^verbatim>\<open>y\<close> gives an object that is no
  label. In multiple mode a text field that is no list is left as it is.
\<close>

definition moveText :: "real \<Rightarrow> real \<Rightarrow> node \<Rightarrow> node" where
  "moveText deltaX deltaY n =
     (if \<not> multiple (labelConfig n) \<and> isObject (node_text n) then
        (case node_text n of
           TextRecord l \<Rightarrow> n\<lparr>node_text := TextRecord (shiftLabel deltaX deltaY l)\<rparr>
         | _ \<Rightarrow> n\<lparr>node_text := TextOther\<rparr>)
      else if multiple (labelConfig n) \<and> isArray (node_text n) then
        (case node_text n of
           TextArray ls \<Rightarrow> n\<lparr>node_text := TextArray (map (shiftLabel deltaX deltaY) ls)\<rparr>
         | _ \<Rightarrow> n)
      else n)"

text \<open>\<^verbatim>\<open>this.text && this.moveText(deltaX, deltaY)\<close>\<close>

definition moveTextIfAny :: "real \<Rightarrow> real \<Rightarrow> node \<Rightarrow> node" where
  "moveTextIfAny deltaX deltaY n =
     (if truthy_text (node_text n) then moveText deltaX deltaY n else n)"

definition move :: "graph \<Rightarrow> real \<Rightarrow> real \<Rightarrow> bool \<Rightarrow> node \<Rightarrow> bool \<times> node" where
  "move g deltaX deltaY isIgnoreRule n =
     (case isAllowMoveByXORY g deltaX deltaY isIgnoreRule n of
        (isAllowMoveX, isAllowMoveY) \<Rightarrow>
          let n1 = (if isAllowMoveX
                    then moveTextIfAny deltaX 0 (n\<lparr>node_x := node_x n + deltaX\<rparr>)
                    else n);
              n2 = (if isAllowMoveY
                    then moveTextIfAny 0 deltaY (n1\<lparr>node_y := node_y n1 + deltaY\<rparr>)
                    else n1)
          in (isAllowMoveX \<or> isAllowMoveY, n2))"

text \<open>\<^verbatim>\<open>getMoveDistance\<close>: as \<^verbatim>\<open>move\<close>, but an axis with a zero delta is skipped.\<close>

definition getMoveDistance :: "graph \<Rightarrow> real \<Rightarrow> real \<Rightarrow> bool \<Rightarrow> node \<Rightarrow> (real \<times> real) \<times> node" where
  "getMoveDistance g deltaX deltaY isIgnoreRule n =
     (case isAllowMoveByXORY g deltaX deltaY isIgnoreRule n of
        (isAllowMoveX, isAllowMoveY) \<Rightarrow>
          let (moveX, n1) = (if isAllowMoveX \<and> deltaX \<noteq> 0
                    then (deltaX, moveTextIfAny deltaX 0 (n\<lparr>node_x := node_x n + deltaX\<rparr>))
                    else (0, n));
              (moveY, n2) = (if isAllowMoveY \<and> deltaY \<noteq> 0
                    then (deltaY, moveTextIfAny 0 deltaY (n1\<lparr>node_y := node_y n1 + deltaY\<rparr>))
                    else (0, n1))
          in ((moveX, moveY), n2))"

definition moveTo :: "graph \<Rightarrow> real \<Rightarrow> real \<Rightarrow> bool \<Rightarrow> node \<Rightarrow> bool \<times> node" where
  "moveTo g x y isIgnoreRule n =
     (let deltaX = x - node_x n;
          deltaY = y - node_y n
      in if \<not> isIgnoreRule \<and> \<not> truthy_move (isAllowMoveNode g deltaX deltaY n)
         then (False, n)
         else (True, (moveTextIfAny deltaX deltaY n)\<lparr>node_x := x, node_y := y\<rparr>))"

subsection \<open>Connection rules\<close>

record connect_rule_result =
  isAllPass :: bool
  msg :: string

text \<open>
  The \<^verbatim>\<open>for\<close> loop shared by \<^verbatim>\<open>isAllowConnectedAsSource\<close> and
  \<^verbatim>\<open>isAllowConnectedAsTarget\<close>; \<open>call\<close> is the call of \<^verbatim>\<open>rule.validate\<close> with the
  arguments of the method at hand. Besides the result, the loop returns the rules whose
  predicate it has invoked, in order, so that a statement can say which were not.
\<close>

fun connectRuleLoop :: "(connect_rule \<Rightarrow> bool) \<Rightarrow> connect_rule list
    \<Rightarrow> connect_rule_result \<times> connect_rule list" where
  "connectRuleLoop call [] = (\<lparr>isAllPass = True, msg = ''''\<rparr>, [])"
| "connectRuleLoop call (rule # rules) =
     (if \<not> call rule then (\<lparr>isAllPass = False, msg = message rule\<rparr>, [rule])
      else (case connectRuleLoop call rules of
              (res, invoked) \<Rightarrow> (res, rule # invoked)))"

text \<open>
  The overridable hooks \<^verbatim>\<open>getConnectedSourceRules\<close> and \<^verbatim>\<open>getConnectedTargetRules\<close>:
  a method of the node, so it may change the node as well as return a list.
\<close>

type_synonym rules_hook = "node \<Rightarrow> connect_rule list \<times> node"

definition getConnectedSourceRules :: rules_hook where
  "getConnectedSourceRules n = (sourceRules n, n)"

definition getConnectedTargetRules :: rules_hook where
  "getConnectedTargetRules n = (targetRules n, n)"

text \<open>
  \<^verbatim>\<open>!this.hasSetSourceRules ? this.getConnectedSourceRules() : this.sourceRules\<close>, and
  the same for the target rules: the list to evaluate and the node after the call (if any)
  of the hook.
\<close>

definition pullSourceRules :: "rules_hook \<Rightarrow> node \<Rightarrow> connect_rule list \<times> node" where
  "pullSourceRules hook n = (if \<not> hasSetSourceRules n then hook n else (sourceRules n, n))"

definition pullTargetRules :: "rules_hook \<Rightarrow> node \<Rightarrow> connect_rule list \<times> node" where
  "pullTargetRules hook n = (if \<not> hasSetTargetRules n then hook n else (targetRules n, n))"

definition isAllowConnectedAsSource :: "rules_hook \<Rightarrow> node_data \<Rightarrow> anchor option \<Rightarrow> anchor option
    \<Rightarrow> string option \<Rightarrow> node \<Rightarrow> (connect_rule_result \<times> connect_rule list) \<times> node" where
  "isAllowConnectedAsSource hook target sourceAnchor targetAnchor edgeId n =
     (case pullSourceRules hook n of
        (rules, n1) \<Rightarrow>
          let n2 = n1\<lparr>hasSetSourceRules := True\<rparr>
          in (connectRuleLoop
                (\<lambda>rule. validate rule (this_data n2) (this_data n2) target
                           sourceAnchor targetAnchor edgeId)
                rules,
              n2))"

definition isAllowConnectedAsTarget :: "rules_hook \<Rightarrow> node_data \<Rightarrow> anchor option \<Rightarrow> anchor option
    \<Rightarrow> string option \<Rightarrow> node \<Rightarrow> (connect_rule_result \<times> connect_rule list) \<times> node" where
  "isAllowConnectedAsTarget hook source sourceAnchor targetAnchor edgeId n =
     (case pullTargetRules hook n of
        (rules, n1) \<Rightarrow>
          let n2 = n1\<lparr>hasSetTargetRules := True\<rparr>
          in (connectRuleLoop
                (\<lambda>rule. validate rule (this_data n2) source (this_data n2)
                           sourceAnchor targetAnchor edgeId)
                rules,
              n2))"

subsection \<open>Anchors\<close>

text \<open>\<^verbatim>\<open>`${id}_${idx}`\<close>\<close>

definition anchorIdOf :: "string \<Rightarrow> nat \<Rightarrow> string" where
  "anchorIdOf nid idx = nid @ ''_'' @ string_of_nat idx"

text \<open>
  The body of the \<^verbatim>\<open>map\<close> in \<^verbatim>\<open>getAnchorsByOffset\<close>. A pair has a truthy
  \<^verbatim>\<open>length\<close>; for a record, \<^verbatim>\<open>el.id || `${id}_${idx}`\<close> replaces a missing or empty id.
\<close>

fun offsetAnchor :: "string \<Rightarrow> real \<Rightarrow> real \<Rightarrow> nat \<Rightarrow> anchors_offset_item \<Rightarrow> anchor" where
  "offsetAnchor nid x y idx (OffsetTuple ex ey) =
     \<lparr>anchor_id = anchorIdOf nid idx, anchor_x = x + ex, anchor_y = y + ey, anchor_rest = []\<rparr>"
| "offsetAnchor nid x y idx (OffsetPoint elid ex ey rest) =
     \<lparr>anchor_id = (case elid of
                     None \<Rightarrow> anchorIdOf nid idx
                   | Some i \<Rightarrow> if i = [] then anchorIdOf nid idx else i),
      anchor_x = x + ex, anchor_y = y + ey, anchor_rest = rest\<rparr>"

text \<open>\<open>getDefaultAnchor\<close> is the overridable generator of default anchors.\<close>

definition getAnchorsByOffset :: "(node \<Rightarrow> anchor list) \<Rightarrow> node \<Rightarrow> anchor list" where
  "getAnchorsByOffset getDefaultAnchor n =
     (if length (anchorsOffset n) > 0
      then map (\<lambda>(idx, el). offsetAnchor (node_id n) (node_x n) (node_y n) idx el)
             (enumerate 0 (anchorsOffset n))
      else getDefaultAnchor n)"

text \<open>\<^verbatim>\<open>BaseNodeModel.getDefaultAnchor\<close> and its override in \<^verbatim>\<open>CircleNodeModel\<close>.\<close>

definition baseDefaultAnchor :: "node \<Rightarrow> anchor list" where
  "baseDefaultAnchor n = []"

definition circleDefaultAnchor :: "real \<Rightarrow> node \<Rightarrow> anchor list" where
  "circleDefaultAnchor r n =
     [\<lparr>anchor_id = anchorIdOf (node_id n) 0, anchor_x = node_x n, anchor_y = node_y n - r, anchor_rest = []\<rparr>,
      \<lparr>anchor_id = anchorIdOf (node_id n) 1, anchor_x = node_x n + r, anchor_y = node_y n, anchor_rest = []\<rparr>,
      \<lparr>anchor_id = anchorIdOf (node_id n) 2, anchor_x = node_x n, anchor_y = node_y n + r, anchor_rest = []\<rparr>,
      \<lparr>anchor_id = anchorIdOf (node_id n) 3, anchor_x = node_x n - r, anchor_y = node_y n, anchor_rest = []\<rparr>]"

subsection \<open>The transform engine\<close>

text \<open>
  Modelled from the spec: the classes \<^verbatim>\<open>Matrix\<close> and \<^verbatim>\<open>TranslateMatrix\<close> of
  \<^verbatim>\<open>util\<close> are not among the sources. The spec (4.1) has them compose 2-D affine
  operations: "translate the node's center to the origin, rotate by the signed angle,
  translate back", the same composition being applied to each anchor point; its scenario
  (a quarter turn about (100,100) takes (150,100) to (100,150)) fixes the direction. The
  angle is in radians, and the descriptor is the composed matrix itself (the source keeps
  its \<^verbatim>\<open>toString()\<close>).
\<close>

definition translateMatrix :: "real \<Rightarrow> real \<Rightarrow> matrix" where
  "translateMatrix tx ty = \<lparr>m_a = 1, m_b = 0, m_c = 0, m_d = 1, m_e = tx, m_f = ty\<rparr>"

definition rotateMatrix :: "real \<Rightarrow> matrix" where
  "rotateMatrix theta =
     \<lparr>m_a = cos theta, m_b = sin theta, m_c = - sin theta, m_d = cos theta, m_e = 0, m_f = 0\<rparr>"

definition cross :: "matrix \<Rightarrow> matrix \<Rightarrow> matrix" where
  "cross p q =
     \<lparr>m_a = m_a p * m_a q + m_b p * m_c q,
      m_b = m_a p * m_b q + m_b p * m_d q,
      m_c = m_c p * m_a q + m_d p * m_c q,
      m_d = m_c p * m_b q + m_d p * m_d q,
      m_e = m_e p * m_a q + m_f p * m_c q + m_e q,
      m_f = m_e p * m_b q + m_f p * m_d q + m_f q\<rparr>"

definition crossPoint :: "real \<times> real \<Rightarrow> matrix \<Rightarrow> real \<times> real" where
  "crossPoint p q =
     (fst p * m_a q + snd p * m_c q + m_e q, fst p * m_b q + snd p * m_d q + m_f q)"

text \<open>\<^verbatim>\<open>new TranslateMatrix(-x, -y).rotate(value).translate(x, y)\<close>\<close>

definition rotateAbout :: "real \<Rightarrow> real \<Rightarrow> real \<Rightarrow> matrix" where
  "rotateAbout x y theta =
     cross (cross (translateMatrix (- x) (- y)) (rotateMatrix theta)) (translateMatrix x y)"

text \<open>\<^verbatim>\<open>new Matrix([anchorX, anchorY, 1]).translate(-x, -y).rotate(rotate).translate(x, y)[0]\<close>\<close>

definition rotatePoint :: "real \<Rightarrow> real \<Rightarrow> real \<Rightarrow> real \<times> real \<Rightarrow> real \<times> real" where
  "rotatePoint x y theta p =
     crossPoint (crossPoint (crossPoint p (translateMatrix (- x) (- y))) (rotateMatrix theta))
       (translateMatrix x y)"

text \<open>The setter of \<^verbatim>\<open>rotate\<close>.\<close>

definition set_rotate :: "real \<Rightarrow> node \<Rightarrow> node" where
  "set_rotate v n =
     (let n1 = n\<lparr>node_rotate := v\<rparr>
      in n1\<lparr>transform := Some (rotateAbout (node_x n1) (node_y n1) v)\<rparr>)"

text \<open>The getter \<^verbatim>\<open>anchors\<close>.\<close>

definition anchors :: "(node \<Rightarrow> anchor list) \<Rightarrow> node \<Rightarrow> anchor list" where
  "anchors getDefaultAnchor n =
     map (\<lambda>a. case rotatePoint (node_x n) (node_y n) (node_rotate n) (anchor_x a, anchor_y a) of
                 (e, f) \<Rightarrow> a\<lparr>anchor_x := e, anchor_y := f\<rparr>)
       (getAnchorsByOffset getDefaultAnchor n)"

subsection \<open>Adding and deleting labels\<close>

datatype error = TypeError

text \<open>
  Reading \<^verbatim>\<open>this.text.length >= max\<close> and calling \<^verbatim>\<open>this.text.push(newText)\<close>:
  on \<^verbatim>\<open>undefined\<close> either throws a \<^verbatim>\<open>TypeError\<close>; an object that is no list has
  the \<^verbatim>\<open>length\<close> \<^verbatim>\<open>undefined\<close>, which is not \<^verbatim>\<open>>= max\<close>, and no \<^verbatim>\<open>push\<close> to
  call.
\<close>

fun lengthGe :: "text_field \<Rightarrow> nat \<Rightarrow> error + bool" where
  "lengthGe TextUndefined mx = Inl TypeError"
| "lengthGe (TextArray ls) mx = Inr (length ls \<ge> mx)"
| "lengthGe t mx = Inr False"

fun push :: "text_field \<Rightarrow> label \<Rightarrow> error + text_field" where
  "push (TextArray ls) l = Inr (TextArray (ls @ [l]))"
| "push t l = Inl TypeError"

text \<open>\<^verbatim>\<open>{ ...toJS(this.text), isFocus: true }\<close>: of a list or of \<^verbatim>\<open>undefined\<close>, no label.\<close>

fun spreadFocus :: "text_field \<Rightarrow> text_field" where
  "spreadFocus (TextRecord l) = TextRecord (l\<lparr>isFocus := True\<rparr>)"
| "spreadFocus t = TextOther"

text \<open>
  \<^verbatim>\<open>addText\<close>. \<open>newId\<close> is what \<^verbatim>\<open>createUuid()\<close> returns for this call, \<open>labelConf\<close>
  the position asked for. The destructuring
  \<^verbatim>\<open>const { multiple = false, max } = labelConfig\<close> throws a \<^verbatim>\<open>TypeError\<close> when
  \<^verbatim>\<open>properties.labelConfig\<close> is \<^verbatim>\<open>undefined\<close> or \<^verbatim>\<open>null\<close>.
\<close>

definition addText :: "string \<Rightarrow> real \<times> real \<Rightarrow> node \<Rightarrow> error + node" where
  "addText newId labelConf n =
     (if isNil (getProp (properties n) ''labelConfig'') then Inl TypeError
      else
        let isMultiple = multiple (labelConfig n);
            reached = (if isMultiple
                       then (case max_labels (labelConfig n) of
                               None \<Rightarrow> Inr False
                             | Some mx \<Rightarrow> lengthGe (node_text n) mx)
                       else Inr False);
            newText = \<lparr>text_id = newId, relateId = node_id n, text_value = '''', content = '''',
                       text_x = (if isMultiple then fst labelConf else node_x n - 10),
                       text_y = (if isMultiple then snd labelConf else node_y n - 10),
                       draggable = False, editable = True, isFocus = True\<rparr>
        in case reached of
             Inl e \<Rightarrow> Inl e
           | Inr True \<Rightarrow> Inr n
           | Inr False \<Rightarrow>
               if isMultiple then
                 (case push (node_text n) newText of
                    Inl e \<Rightarrow> Inl e
                  | Inr t \<Rightarrow> Inr (n\<lparr>node_text := t\<rparr>))
               else Inr (n\<lparr>node_text := spreadFocus (node_text n)\<rparr>))"


text \<open>The argument \<^verbatim>\<open>{ index?: number; id?: string }\<close> of \<^verbatim>\<open>deleteText\<close>.\<close>

record text_info =
  info_index :: "int option"
  info_id :: "string option"

text \<open>
  \<^verbatim>\<open>isArray()\<close>, called with no argument as \<^verbatim>\<open>deleteText\<close> does: lodash tests
  \<^verbatim>\<open>undefined\<close>, which is no array.
\<close>

definition isArray_noarg :: bool where
  "isArray_noarg = False"

text \<open>lodash \<^verbatim>\<open>findIndex\<close>, with \<open>None\<close> for \<^verbatim>\<open>-1\<close>.\<close>

fun findIndex :: "('a \<Rightarrow> bool) \<Rightarrow> 'a list \<Rightarrow> nat option" where
  "findIndex p [] = None"
| "findIndex p (x # xs) =
     (if p x then Some 0 else (case findIndex p xs of None \<Rightarrow> None | Some i \<Rightarrow> Some (Suc i)))"

text \<open>
  \<^verbatim>\<open>list.splice(start, 1)\<close>: a negative start counts from the end, a start past the end
  removes nothing.
\<close>

definition splice1 :: "int \<Rightarrow> 'a list \<Rightarrow> 'a list" where
  "splice1 start xs =
     (let len = int (length xs);
          i = nat (if start < 0 then max (len + start) 0 else min start len)
      in take i xs @ drop (Suc i) xs)"

text \<open>Truthiness of \<^verbatim>\<open>textInfo.index\<close>, and the number \<^verbatim>\<open>splice\<close> takes it for.\<close>

fun truthy_index :: "int option \<Rightarrow> bool" where
  "truthy_index None = False"
| "truthy_index (Some i) = (i \<noteq> 0)"

fun index_start :: "int option \<Rightarrow> int" where
  "index_start None = 0"
| "index_start (Some i) = i"

definition deleteText :: "text_info \<Rightarrow> node \<Rightarrow> node" where
  "deleteText textInfo n =
     (case node_text n of
        TextArray ls \<Rightarrow>
          if truthy_index (info_index textInfo) \<and> isArray_noarg
          then n\<lparr>node_text := TextArray (splice1 (index_start (info_index textInfo)) ls)\<rparr>
          else (case findIndex (\<lambda>item. Some (text_id item) = info_id textInfo) ls of
                  None \<Rightarrow> n
                | Some textIndex \<Rightarrow> n\<lparr>node_text := TextArray (splice1 (int textIndex) ls)\<rparr>)
      | TextRecord l \<Rightarrow> n\<lparr>node_text := TextRecord (l\<lparr>text_value := '''', content := ''''\<rparr>)\<rparr>
      | TextUndefined \<Rightarrow> n
      | TextOther \<Rightarrow> n)"

subsection \<open>Properties\<close>

fun isPrimitive :: "jsval \<Rightarrow> bool" where
  "isPrimitive (JArr vs) = False"
| "isPrimitive (JObj ps) = False"
| "isPrimitive v = True"

text \<open>
  \<^verbatim>\<open>preProperties[key] !== val\<close>. \<^verbatim>\<open>preProperties\<close> is \<^verbatim>\<open>toJS(this.properties)\<close>, a
  fresh plain copy of the observable map: an object or array in it is identical to no
  other value, and primitives compare by value.
\<close>

definition strictNeqCopy :: "jsval \<Rightarrow> jsval \<Rightarrow> bool" where
  "strictNeqCopy pre val = (if isPrimitive pre \<and> isPrimitive val then pre \<noteq> val else True)"

text \<open>The own enumerable entries that an object spread \<^verbatim>\<open>{...v}\<close> copies.\<close>

fun ownEntries :: "jsval \<Rightarrow> props" where
  "ownEntries (JObj ps) = ps"
| "ownEntries (JArr vs) = map (\<lambda>(i, v). (string_of_nat i, v)) (enumerate 0 vs)"
| "ownEntries (JStr s) = map (\<lambda>(i, c). (string_of_nat i, JStr [c])) (enumerate 0 s)"
| "ownEntries v = []"

text \<open>
  \<^verbatim>\<open>toJS(obj)\<close>, a fresh plain copy, made entry by entry, and the spread
  \<^verbatim>\<open>{...a, ...b}\<close>, which creates the entries of \<open>a\<close> and then those of \<open>b\<close>: a key of
  \<open>a\<close> keeps its place and takes the value that \<open>b\<close> has for it, a new key is created.
\<close>

definition toJS :: "props \<Rightarrow> props" where
  "toJS obj = objectOf obj"

definition spread :: "props \<Rightarrow> props \<Rightarrow> props" where
  "spread a b = objectOf (a @ b)"

text \<open>The payload of \<^verbatim>\<open>EventType.NODE_PROPERTIES_CHANGE\<close>.\<close>

record properties_change =
  ev_id :: string
  ev_keys :: "string list"
  ev_preProperties :: props
  ev_properties :: props

text \<open>
  \<^verbatim>\<open>setProperty\<close> and \<^verbatim>\<open>setProperties\<close> return the node and the event they emit.
  \<open>formatData\<close> (of \<^verbatim>\<open>util\<close>, not among the sources) and the overridable hook
  \<open>setAttributes\<close> are parameters. \<open>props\<close> holds the entries of the object passed to
  \<^verbatim>\<open>setProperties\<close>; \<^verbatim>\<open>mapKeys\<close> visits the keys of that object in the order of
  enumeration. As \<^verbatim>\<open>labelConfig\<close> is one of the properties, both methods can replace
  it.
\<close>

definition setProperty :: "(jsval \<Rightarrow> jsval) \<Rightarrow> (node \<Rightarrow> node) \<Rightarrow> string \<Rightarrow> jsval \<Rightarrow> node
    \<Rightarrow> node \<times> properties_change" where
  "setProperty formatData setAttributes key val n =
     (let preProperties = toJS (properties n);
          nextProperties = spread preProperties [(key, formatData val)];
          n1 = setAttributes (n\<lparr>properties := nextProperties\<rparr>)
      in (n1, \<lparr>ev_id = node_id n1, ev_keys = [key], ev_preProperties = preProperties,
               ev_properties = nextProperties\<rparr>))"

definition setProperties :: "(jsval \<Rightarrow> jsval) \<Rightarrow> (node \<Rightarrow> node) \<Rightarrow> props \<Rightarrow> node
    \<Rightarrow> node \<times> properties_change" where
  "setProperties formatData setAttributes props n =
     (let supplied = objectOf props;
          preProperties = toJS (properties n);
          nextProperties = spread preProperties (ownEntries (formatData (JObj supplied)));
          n1 = setAttributes (n\<lparr>properties := nextProperties\<rparr>);
          updateKeys = map fst (filter (\<lambda>(key, val).
              (has_key preProperties key \<and> strictNeqCopy (getProp preProperties key) val)
              \<or> \<not> has_key preProperties key) supplied)
      in (n1, \<lparr>ev_id = node_id n1, ev_keys = updateKeys, ev_preProperties = preProperties,
               ev_properties = nextProperties\<rparr>))"

subsection \<open>The data snapshot\<close>

record text_data =
  td_x :: real
  td_y :: real
  td_value :: string
  td_content :: string

datatype data_text =
    DataTextOne text_data
  | DataTextList "text_data list"

text \<open>\<^verbatim>\<open>LogicFlow.NodeData\<close>; an optional key that is absent is \<open>None\<close>.\<close>

record node_snapshot =
  d_id :: string
  d_type :: string
  d_x :: real
  d_y :: real
  d_properties :: props
  d_rotate :: "real option"
  d_zIndex :: "real option"
  d_text :: "data_text option"

definition textData :: "label \<Rightarrow> text_data" where
  "textData l = \<lparr>td_x = text_x l, td_y = text_y l, td_value = text_value l, td_content = content l\<rparr>"

definition getData :: "graph \<Rightarrow> node \<Rightarrow> node_snapshot" where
  "getData g n =
     \<lparr>d_id = node_id n, d_type = node_type n, d_x = node_x n, d_y = node_y n,
      d_properties = properties n,
      d_rotate = (if node_rotate n \<noteq> 0 then Some (node_rotate n) else None),
      d_zIndex = (if overlapMode g = INCREASE then Some (zIndex n) else None),
      d_text = (case node_text n of
                  TextArray ls \<Rightarrow> Some (DataTextList (map textData ls))
                | TextRecord l \<Rightarrow>
                    if text_value l \<noteq> '''' then Some (DataTextOne (textData l)) else None
                | TextOther \<Rightarrow> None
                | TextUndefined \<Rightarrow> None)\<rparr>"

subsection \<open>Resizing\<close>

record resize_info =
  r_width :: real
  r_height :: real
  r_deltaX :: real
  r_deltaY :: real

definition resize :: "(jsval \<Rightarrow> jsval) \<Rightarrow> (node \<Rightarrow> node) \<Rightarrow> graph \<Rightarrow> resize_info \<Rightarrow> node
    \<Rightarrow> node_snapshot \<times> node \<times> properties_change" where
  "resize formatData setAttributes g resizeInfo n =
     (let n1 = snd (move g (r_deltaX resizeInfo / 2) (r_deltaY resizeInfo / 2) False n);
          n2 = n1\<lparr>width := r_width resizeInfo, height := r_height resizeInfo\<rparr>
      in case setProperties formatData setAttributes
                [(''width'', JNum (r_width resizeInfo)), (''height'', JNum (r_height resizeInfo))] n2 of
           (n3, ev) \<Rightarrow> (getData g n3, n3, ev))"

subsection \<open>Notions used to state the properties\<close>

text \<open>Applying a function to every label of the text field, whichever its shape.\<close>

fun mapLabels :: "(label \<Rightarrow> label) \<Rightarrow> text_field \<Rightarrow> text_field" where
  "mapLabels f (TextRecord l) = TextRecord (f l)"
| "mapLabels f (TextArray ls) = TextArray (map f ls)"
| "mapLabels f t = t"

text \<open>
  The text field has the shape that the label configuration asks for (spec, section 3): a
  list when \<open>multiple\<close> is set, and otherwise a single record (or \<^verbatim>\<open>undefined\<close>,
  which \<^verbatim>\<open>formatText\<close> leaves for an empty list in single mode). The constructor
  arranges the text field so, through \<^verbatim>\<open>formatText\<close>; \<^verbatim>\<open>setProperty\<close> and
  \<^verbatim>\<open>setProperties\<close> can replace \<^verbatim>\<open>labelConfig\<close> and leave the text field as it
  is.
\<close>

definition text_shape_ok :: "node \<Rightarrow> bool" where
  "text_shape_ok n =
     (case node_text n of
        TextUndefined \<Rightarrow> \<not> multiple (labelConfig n)
      | TextRecord l \<Rightarrow> \<not> multiple (labelConfig n)
      | TextArray ls \<Rightarrow> multiple (labelConfig n)
      | TextOther \<Rightarrow> False)"

text \<open>
  The node has a label configuration: \<^verbatim>\<open>properties.labelConfig\<close> is neither
  \<^verbatim>\<open>undefined\<close> nor \<^verbatim>\<open>null\<close>.
\<close>

definition hasLabelConfig :: "node \<Rightarrow> bool" where
  "hasLabelConfig n = (\<not> isNil (getProp (properties n) ''labelConfig''))"

text \<open>
  The value that the object built from a list of entries holds under a key: that of the
  last entry with the key.
\<close>

definition valueAt :: "props \<Rightarrow> string \<Rightarrow> jsval option" where
  "valueAt entries key = map_of (rev entries) key"

text \<open>
  What one move rule's answer means: a veto of the whole move, or else its say on each
  axis (a boolean \<^verbatim>\<open>true\<close> constrains neither).
\<close>

fun vetoes :: "move_result \<Rightarrow> bool" where
  "vetoes (MoveBool r) = (\<not> r)"
| "vetoes (MoveAxes rx ry) = (\<not> rx \<and> \<not> ry)"

fun allows_x :: "move_result \<Rightarrow> bool" where
  "allows_x (MoveBool r) = True"
| "allows_x (MoveAxes rx ry) = rx"

fun allows_y :: "move_result \<Rightarrow> bool" where
  "allows_y (MoveBool r) = True"
| "allows_y (MoveAxes rx ry) = ry"

subsection \<open>Example data\<close>

definition exLabel :: label where
  "exLabel = \<lparr>text_id = ''t1'', relateId = ''n1'', text_value = ''hi'', content = ''hi'',
     text_x = 90, text_y = 90, draggable = False, editable = True, isFocus = False\<rparr>"

text \<open>
  The node of the examples: a node with one label, in single-label mode. Its label
  configuration is the one that the constructor creates when it is given none and the
  editor's \<^verbatim>\<open>multipleNodeText\<close> and \<^verbatim>\<open>nodeTextVerticle\<close> are off.
\<close>

definition exNode :: node where
  "exNode = \<lparr>node_id = ''n1'', node_type = ''rect'', node_x = 100, node_y = 100,
     node_text = TextRecord exLabel,
     properties = [(''labelConfig'', JObj [(''verticle'', JBool False), (''multiple'', JBool False)])],
     width = 100, height = 80, anchorsOffset = [], node_rotate = 0,
     transform = None, zIndex = 1,
     targetRules = [], sourceRules = [], moveRules = [],
     hasSetTargetRules = False, hasSetSourceRules = False\<rparr>"

definition exGraph :: graph where
  "exGraph = \<lparr>nodeMoveRules = [], overlapMode = DEFAULT\<rparr>"

text \<open>A move rule that answers \<^verbatim>\<open>{x: false, y: true}\<close> to every delta.\<close>

definition yOnlyRule :: move_rule where
  "yOnlyRule this deltaX deltaY = MoveAxes False True"

text \<open>
  Connect rules for the examples: one that always fails with the message "no", one that
  always passes, and a hook written as an override that returns a list of its own.
\<close>

definition failRule :: connect_rule where
  "failRule = \<lparr>message = ''no'', validate = (\<lambda>this source target sa ta eid. False)\<rparr>"

definition passRule :: connect_rule where
  "passRule = \<lparr>message = ''unused'', validate = (\<lambda>this source target sa ta eid. True)\<rparr>"

definition freshListHook :: rules_hook where
  "freshListHook n = ([failRule], n)"

text \<open>The label configuration \<^verbatim>\<open>{verticle: false, multiple: true, max: 2}\<close>.\<close>

definition exMultiConfig :: jsval where
  "exMultiConfig = JObj [(''verticle'', JBool False), (''multiple'', JBool True), (''max'', JNum 2)]"

text \<open>A node in multiple-label mode with two labels and \<^verbatim>\<open>max = 2\<close>.\<close>

definition exLabel2 :: label where
  "exLabel2 = \<lparr>text_id = ''t2'', relateId = ''n1'', text_value = ''there'', content = ''there'',
     text_x = 90, text_y = 110, draggable = False, editable = True, isFocus = False\<rparr>"

definition exMultiNode :: node where
  "exMultiNode = exNode\<lparr>properties := [(''labelConfig'', exMultiConfig)],
     node_text := TextArray [exLabel, exLabel2]\<rparr>"

text \<open>A node in multiple-label mode with no labels yet and \<^verbatim>\<open>max = 2\<close>.\<close>

definition exEmptyMultiNode :: node where
  "exEmptyMultiNode = exNode\<lparr>properties := [(''labelConfig'', exMultiConfig)],
     node_text := TextArray []\<rparr>"


text \<open>
  The node of the examples with three explicit anchor offsets (a legacy pair, a record with
  an id and a record without), turned by a quarter (\<open>\<pi>/2\<close>).
\<close>

definition exAnchorNode :: node where
  "exAnchorNode =
     set_rotate (pi / 2)
       (exNode\<lparr>anchorsOffset :=
          [OffsetTuple 50 0, OffsetPoint (Some ''top'') 0 (- 40) [], OffsetPoint None (- 50) 0 []]\<rparr>)"

text \<open>A move rule that answers \<^verbatim>\<open>{x: true, y: false}\<close> to every delta.\<close>

definition xOnlyRule :: move_rule where
  "xOnlyRule this deltaX deltaY = MoveAxes True False"

text \<open>
  The node of the examples after \<^verbatim>\<open>setProperties({labelConfig: {multiple: true}})\<close>,
  with a \<open>formatData\<close> and a hook that change nothing: its label configuration asks for
  a list, its text field is still the single record.
\<close>

definition exSwitchedNode :: node where
  "exSwitchedNode =
     fst (setProperties (\<lambda>v. v) (\<lambda>m. m) [(''labelConfig'', JObj [(''multiple'', JBool True)])] exNode)"

text \<open>
  A second node, two anchors, and two connect rules that pass only when called as the
  methods call them: \<open>asSourceRule\<close> when the receiver is the node \<open>n1\<close> at (100,100) and
  is the source, the target is \<open>n2\<close>, and the anchors and the edge id are the ones below;
  \<open>asTargetRule\<close> when the receiver is that node and is the target, the source being
  \<open>n2\<close>.
\<close>

definition exOther :: node_data where
  "exOther = this_data (exNode\<lparr>node_id := ''n2'', node_x := 300\<rparr>)"

definition exAnchor1 :: anchor where
  "exAnchor1 = \<lparr>anchor_id = ''n1_1'', anchor_x = 150, anchor_y = 100, anchor_rest = []\<rparr>"

definition exAnchor2 :: anchor where
  "exAnchor2 = \<lparr>anchor_id = ''n2_3'', anchor_x = 250, anchor_y = 100, anchor_rest = []\<rparr>"

definition asSourceRule :: connect_rule where
  "asSourceRule = \<lparr>message = ''not called as source'',
     validate = (\<lambda>this source target sa ta eid.
        node_id this = ''n1'' \<and> node_x this = 100 \<and> node_y this = 100
        \<and> source = this \<and> node_id target = ''n2''
        \<and> sa = Some exAnchor1 \<and> ta = Some exAnchor2 \<and> eid = Some ''e1'')\<rparr>"

definition asTargetRule :: connect_rule where
  "asTargetRule = \<lparr>message = ''not called as target'',
     validate = (\<lambda>this source target sa ta eid.
        node_id this = ''n1'' \<and> node_x this = 100 \<and> node_y this = 100
        \<and> target = this \<and> node_id source = ''n2''
        \<and> sa = Some exAnchor2 \<and> ta = Some exAnchor1 \<and> eid = Some ''e2'')\<rparr>"

section \<open>Verified properties\<close>

subsection \<open>Objects and the label configuration\<close>

lemma insertIndexed_set: "set (insertIndexed i key val ps) = insert (key, val) (set ps)"
  by (induction i key val ps rule: insertIndexed.induct) (auto split: option.splits)

lemma insertIndexed_distinct:
  "key \<notin> fst ` set ps \<Longrightarrow> distinct (map fst ps) \<Longrightarrow> distinct (map fst (insertIndexed i key val ps))"
  by (induction i key val ps rule: insertIndexed.induct)
     (auto simp: insertIndexed_set split: option.splits)

lemma insertIndexed_map_of:
  "key \<notin> fst ` set ps \<Longrightarrow> map_of (insertIndexed i key val ps) = (map_of ps)(key \<mapsto> val)"
  by (induction i key val ps rule: insertIndexed.induct) (auto split: option.splits)

lemma map_of_snoc:
  "key \<notin> fst ` set ps \<Longrightarrow> map_of (ps @ [(key, val)]) = (map_of ps)(key \<mapsto> val)"
  by (induction ps) auto

text \<open>An assignment keeps the keys of an object distinct and changes the one lookup.\<close>

lemma setKey_distinct:
  "distinct (map fst ps) \<Longrightarrow> distinct (map fst (setKey key val ps))"
  by (auto simp: setKey_def insertIndexed_distinct distinct_update split: option.splits)

lemma setKey_map_of: "map_of (setKey key val ps) = (map_of ps)(key \<mapsto> val)"
  by (auto simp: setKey_def insertIndexed_map_of map_of_snoc update_conv' simp del: map_of_append
      split: option.splits)

lemma fold_setKey_distinct:
  "distinct (map fst acc) \<Longrightarrow> distinct (map fst (fold (\<lambda>(key, val). setKey key val) es acc))"
  by (induction es arbitrary: acc) (auto simp: setKey_distinct)

lemma fold_setKey_map_of:
  "map_of (fold (\<lambda>(key, val). setKey key val) es acc) = map_of acc ++ map_of (rev es)"
  by (induction es arbitrary: acc) (auto simp: setKey_map_of)

lemma objectOf_distinct: "distinct (map fst (objectOf es))"
  by (simp add: objectOf_def fold_setKey_distinct)

lemma objectOf_map_of: "map_of (objectOf es) = map_of (rev es)"
  by (simp add: objectOf_def fold_setKey_map_of)

lemma map_of_rev_distinct: "distinct (map fst ps) \<Longrightarrow> map_of (rev ps) = map_of ps"
  using map_of_inject_set [of "rev ps" ps] by (simp add: rev_map [symmetric])

lemma valueAt_objectOf: "valueAt (objectOf es) key = valueAt es key"
  by (simp add: valueAt_def map_of_rev_distinct objectOf_distinct objectOf_map_of)

lemma map_of_objectOf: "map_of (objectOf es) key = valueAt es key"
  by (simp add: valueAt_def objectOf_map_of)

lemma valueAt_distinct: "distinct (map fst es) \<Longrightarrow> valueAt es key = map_of es key"
  by (simp add: valueAt_def map_of_rev_distinct)

lemma objectOf_entry: "(key, val) \<in> set (objectOf es) \<longleftrightarrow> valueAt es key = Some val"
  using map_of_eq_Some_iff [OF objectOf_distinct, of es key val]
  by (simp add: map_of_objectOf)

text \<open>The entries of a spread: those of the second object, and the others of the first.\<close>

lemma valueAt_append:
  "valueAt (a @ b) key = (case valueAt b key of Some val \<Rightarrow> Some val | None \<Rightarrow> valueAt a key)"
  unfolding valueAt_def by (simp add: map_add_def)

lemma map_of_spread:
  "map_of (spread a b) key = (case valueAt b key of Some val \<Rightarrow> Some val | None \<Rightarrow> valueAt a key)"
  by (simp add: spread_def map_of_objectOf valueAt_append)

lemma spread_distinct: "distinct (map fst (spread a b))"
  by (simp add: spread_def objectOf_distinct)

text \<open>Changes of other fields leave the label configuration as it is.\<close>

lemma labelConfig_update [simp]:
  "labelConfig (n\<lparr>node_x := x\<rparr>) = labelConfig n"
  "labelConfig (n\<lparr>node_y := y\<rparr>) = labelConfig n"
  "labelConfig (n\<lparr>node_text := t\<rparr>) = labelConfig n"
  "labelConfig (n\<lparr>moveRules := mr\<rparr>) = labelConfig n"
  "labelConfig (n\<lparr>width := w\<rparr>) = labelConfig n"
  "labelConfig (n\<lparr>height := h\<rparr>) = labelConfig n"
  by (simp_all add: labelConfig_def)

lemma hasLabelConfig_update [simp]:
  "hasLabelConfig (n\<lparr>node_text := t\<rparr>) = hasLabelConfig n"
  by (simp add: hasLabelConfig_def)


lemma exNode_fields:
  "hasSetSourceRules exNode = False" "hasSetTargetRules exNode = False"
  "sourceRules exNode = []" "targetRules exNode = []" "moveRules exNode = []"
  "node_x exNode = 100" "node_y exNode = 100" "node_rotate exNode = 0"
  "node_text exNode = TextRecord exLabel" "multiple (labelConfig exNode) = False"
  "node_id exNode = ''n1''" "transform exNode = None"
  "properties exNode =
     [(''labelConfig'', JObj [(''verticle'', JBool False), (''multiple'', JBool False)])]"
  by (simp_all add: exNode_def labelConfig_def getProp_def)


lemma exMultiNode_labelConfig:
  "labelConfig exMultiNode = \<lparr>multiple = True, max_labels = Some 2, verticle = False\<rparr>"
  "labelConfig exEmptyMultiNode = \<lparr>multiple = True, max_labels = Some 2, verticle = False\<rparr>"
  by (simp_all add: labelConfig_def exMultiNode_def exEmptyMultiNode_def exMultiConfig_def
      getProp_def)

text \<open>
  \<^verbatim>\<open>setProperties({labelConfig: {multiple: true}})\<close> on the node of the examples
  replaces the label configuration and nothing else.
\<close>

lemma exSwitchedNode_eq:
  "exSwitchedNode = exNode\<lparr>properties := [(''labelConfig'', JObj [(''multiple'', JBool True)])]\<rparr>"
  by (simp add: exSwitchedNode_def setProperties_def Let_def toJS_def spread_def objectOf_def
      setKey_def arrayIndex_def digit_of_def exNode_def)

lemma exSwitchedNode_labelConfig:
  "labelConfig exSwitchedNode = \<lparr>multiple = True, max_labels = None, verticle = False\<rparr>"
  by (simp add: exSwitchedNode_eq labelConfig_def getProp_def)

subsection \<open>Move rules and moves\<close>

lemma moveRuleLoop_eq:
  "moveRuleLoop this dx dy rules ax ay =
     (if list_ex (\<lambda>rule. vetoes (rule this dx dy)) rules then MoveBool False
      else MoveAxes (ax \<and> list_all (\<lambda>rule. allows_x (rule this dx dy)) rules)
                    (ay \<and> list_all (\<lambda>rule. allows_y (rule this dx dy)) rules))"
proof (induction rules arbitrary: ax ay)
  case Nil
  show ?case by simp
next
  case (Cons rule rules)
  show ?case
  proof (cases "rule this dx dy")
    case (MoveBool r)
    then show ?thesis using Cons.IH [of ax ay] by auto
  next
    case (MoveAxes rx ry)
    then show ?thesis using Cons.IH [of "ax \<and> rx" "ay \<and> ry"] by auto
  qed
qed

lemma isAllowMoveNode_eq:
  "isAllowMoveNode g dx dy n =
     (if list_ex (\<lambda>rule. vetoes (rule (this_data n) dx dy)) (moveRules n @ nodeMoveRules g)
      then MoveBool False
      else MoveAxes
             (list_all (\<lambda>rule. allows_x (rule (this_data n) dx dy)) (moveRules n @ nodeMoveRules g))
             (list_all (\<lambda>rule. allows_y (rule (this_data n) dx dy)) (moveRules n @ nodeMoveRules g)))"
  unfolding isAllowMoveNode_def by (subst moveRuleLoop_eq) simp

lemma isAllowMoveByXORY_eq:
  "isAllowMoveByXORY g dx dy ig n =
     (if ig then (True, True)
      else if list_ex (\<lambda>rule. vetoes (rule (this_data n) dx dy)) (moveRules n @ nodeMoveRules g)
      then (False, False)
      else (list_all (\<lambda>rule. allows_x (rule (this_data n) dx dy)) (moveRules n @ nodeMoveRules g),
            list_all (\<lambda>rule. allows_y (rule (this_data n) dx dy)) (moveRules n @ nodeMoveRules g)))"
  by (simp add: isAllowMoveByXORY_def isAllowMoveNode_eq)

lemma map_shiftLabel_zero: "map (shiftLabel 0 0) ls = ls"
  by (induction ls) (simp_all add: shiftLabel_def)

text \<open>Moving the labels touches the text field only.\<close>

lemma moveTextIfAny_frame:
  "moveTextIfAny a b m = m\<lparr>node_text := node_text (moveTextIfAny a b m)\<rparr>"
  by (cases "node_text m") (simp_all add: moveTextIfAny_def moveText_def)

lemma moveTextIfAny_fields:
  "node_x (moveTextIfAny a b m) = node_x m"
  "node_y (moveTextIfAny a b m) = node_y m"
  "node_rotate (moveTextIfAny a b m) = node_rotate m"
  "transform (moveTextIfAny a b m) = transform m"
  by (subst moveTextIfAny_frame, simp)+

lemma move_position:
  "isAllowMoveByXORY g dx dy ig n = (ax, ay) \<Longrightarrow>
   fst (move g dx dy ig n) = (ax \<or> ay)
   \<and> node_x (snd (move g dx dy ig n)) = (if ax then node_x n + dx else node_x n)
   \<and> node_y (snd (move g dx dy ig n)) = (if ay then node_y n + dy else node_y n)"
  by (simp add: move_def Let_def moveTextIfAny_fields)

lemma move_eq:
  assumes "text_shape_ok n" and a: "isAllowMoveByXORY g dx dy ig n = (ax, ay)"
  shows "snd (move g dx dy ig n) =
           n\<lparr>node_x := (if ax then node_x n + dx else node_x n),
             node_y := (if ay then node_y n + dy else node_y n),
             node_text := mapLabels (shiftLabel (if ax then dx else 0) (if ay then dy else 0))
                            (node_text n)\<rparr>"
  using assms(1)
  by (cases ax; cases ay; cases "node_text n")
     (simp_all add: move_def a moveTextIfAny_def moveText_def text_shape_ok_def Let_def
        shiftLabel_def comp_def map_shiftLabel_zero)

lemma moveTo_eq:
  assumes "text_shape_ok n"
  shows "moveTo g tx ty ig n =
     (if \<not> ig \<and> list_ex (\<lambda>rule. vetoes (rule (this_data n) (tx - node_x n) (ty - node_y n)))
                    (moveRules n @ nodeMoveRules g)
      then (False, n)
      else (True, n\<lparr>node_x := tx, node_y := ty,
                    node_text := mapLabels (shiftLabel (tx - node_x n) (ty - node_y n)) (node_text n)\<rparr>))"
  using assms
  by (cases "node_text n")
     (simp_all add: moveTo_def isAllowMoveNode_eq Let_def moveTextIfAny_def moveText_def
        text_shape_ok_def)

lemma moveTo_position:
  "moveTo g tx ty ig n =
     (if \<not> ig \<and> list_ex (\<lambda>rule. vetoes (rule (this_data n) (tx - node_x n) (ty - node_y n)))
                    (moveRules n @ nodeMoveRules g)
      then (False, n)
      else (True, (moveTextIfAny (tx - node_x n) (ty - node_y n) n)\<lparr>node_x := tx, node_y := ty\<rparr>))"
  by (simp add: moveTo_def isAllowMoveNode_eq Let_def)

text \<open>
  Where the label configuration asks for a list and the text field is a single record,
  \<^verbatim>\<open>moveText\<close> takes neither branch: the node moves and its label stays.
\<close>

lemma moveTextIfAny_mismatch:
  "multiple (labelConfig n) \<Longrightarrow> node_text n = TextRecord l \<Longrightarrow> moveTextIfAny a b n = n"
  by (simp add: moveTextIfAny_def moveText_def)

text \<open>
  C1, as stated, fails: the labels are not shifted on every node. \<^verbatim>\<open>moveText\<close> reads
  \<^verbatim>\<open>properties.labelConfig\<close> at the time of the move, and \<^verbatim>\<open>setProperties\<close> replaces
  that property without touching the text field. After
  \<^verbatim>\<open>setProperties({labelConfig: {multiple: true}})\<close> the node of the examples, at
  (100,100), still has its single label record at (90,90); \<^verbatim>\<open>move(10, 10)\<close> with no move
  rules then returns true and takes the node to (110,110), and the label is where it was.
\<close>

theorem move_label_counterexample:
  "(let n = fst (setProperties (\<lambda>v. v) (\<lambda>m. m)
                  [(''labelConfig'', JObj [(''multiple'', JBool True)])] exNode)
    in node_x n = 100 \<and> node_y n = 100
       \<and> node_text n = TextRecord exLabel \<and> text_x exLabel = 90 \<and> text_y exLabel = 90
       \<and> properties n = [(''labelConfig'', JObj [(''multiple'', JBool True)])]
       \<and> isAllowMoveByXORY exGraph 10 10 False n = (True, True)
       \<and> move exGraph 10 10 False n = (True, n\<lparr>node_x := 110, node_y := 110\<rparr>)
       \<and> node_text (snd (move exGraph 10 10 False n)) = TextRecord exLabel
       \<and> node_text (snd (move exGraph 10 10 False n)) \<noteq>
             TextRecord (exLabel\<lparr>text_x := 100, text_y := 100\<rparr>))"
proof -
  have a: "isAllowMoveByXORY exGraph 10 10 False exSwitchedNode = (True, True)"
    by (simp add: isAllowMoveByXORY_eq exSwitchedNode_eq exNode_fields exGraph_def)
  have m: "move exGraph 10 10 False exSwitchedNode =
      (True, exSwitchedNode\<lparr>node_x := 110, node_y := 110\<rparr>)"
    by (simp add: move_def a Let_def moveTextIfAny_def moveText_def exSwitchedNode_labelConfig)
       (simp add: exSwitchedNode_eq exNode_def)
  show ?thesis
    unfolding Let_def exSwitchedNode_def [symmetric] a m
    by (simp add: exSwitchedNode_eq exNode_fields exLabel_def)
qed

text \<open>
  C1, amended. \<^verbatim>\<open>move(dx, dy, ignoreRules)\<close>: the per-axis permissions come from the
  node's move rules followed by the graph's (any veto denies both axes, otherwise an axis
  is allowed when every rule allows it), and both are granted when \<open>ignoreRules\<close> is set.
  The x coordinate changes exactly when the x axis is allowed, the y coordinate exactly
  when the y axis is allowed, and the result is whether either axis is allowed. On a node
  whose text field has the shape that its label configuration asks for at that moment (a
  list when \<^verbatim>\<open>multiple\<close> is set, a single record or none otherwise), every label is
  shifted by the delta on each allowed axis and by nothing on the other, and no other
  field changes.
\<close>

theorem move_per_axis:
  "isAllowMoveByXORY g dx dy ig n =
     (if ig then (True, True)
      else if list_ex (\<lambda>rule. vetoes (rule (this_data n) dx dy)) (moveRules n @ nodeMoveRules g)
      then (False, False)
      else (list_all (\<lambda>rule. allows_x (rule (this_data n) dx dy)) (moveRules n @ nodeMoveRules g),
            list_all (\<lambda>rule. allows_y (rule (this_data n) dx dy)) (moveRules n @ nodeMoveRules g)))
   \<and> (case isAllowMoveByXORY g dx dy ig n of
        (ax, ay) \<Rightarrow>
          fst (move g dx dy ig n) = (ax \<or> ay)
          \<and> node_x (snd (move g dx dy ig n)) = (if ax then node_x n + dx else node_x n)
          \<and> node_y (snd (move g dx dy ig n)) = (if ay then node_y n + dy else node_y n)
          \<and> (text_shape_ok n \<longrightarrow>
               snd (move g dx dy ig n) =
                 n\<lparr>node_x := (if ax then node_x n + dx else node_x n),
                   node_y := (if ay then node_y n + dy else node_y n),
                   node_text := mapLabels (shiftLabel (if ax then dx else 0) (if ay then dy else 0))
                                  (node_text n)\<rparr>))"
proof -
  obtain ax ay where a: "isAllowMoveByXORY g dx dy ig n = (ax, ay)"
    by (cases "isAllowMoveByXORY g dx dy ig n")
  have first: "isAllowMoveByXORY g dx dy ig n =
     (if ig then (True, True)
      else if list_ex (\<lambda>rule. vetoes (rule (this_data n) dx dy)) (moveRules n @ nodeMoveRules g)
      then (False, False)
      else (list_all (\<lambda>rule. allows_x (rule (this_data n) dx dy)) (moveRules n @ nodeMoveRules g),
            list_all (\<lambda>rule. allows_y (rule (this_data n) dx dy)) (moveRules n @ nodeMoveRules g)))"
    by (rule isAllowMoveByXORY_eq)
  have labels: "text_shape_ok n \<longrightarrow>
      snd (move g dx dy ig n) =
        n\<lparr>node_x := (if ax then node_x n + dx else node_x n),
          node_y := (if ay then node_y n + dy else node_y n),
          node_text := mapLabels (shiftLabel (if ax then dx else 0) (if ay then dy else 0))
                         (node_text n)\<rparr>"
    using move_eq [OF _ a] by blast
  have second: "fst (move g dx dy ig n) = (ax \<or> ay)
          \<and> node_x (snd (move g dx dy ig n)) = (if ax then node_x n + dx else node_x n)
          \<and> node_y (snd (move g dx dy ig n)) = (if ay then node_y n + dy else node_y n)
          \<and> (text_shape_ok n \<longrightarrow>
               snd (move g dx dy ig n) =
                 n\<lparr>node_x := (if ax then node_x n + dx else node_x n),
                   node_y := (if ay then node_y n + dy else node_y n),
                   node_text := mapLabels (shiftLabel (if ax then dx else 0) (if ay then dy else 0))
                                  (node_text n)\<rparr>)"
    using move_position [OF a] labels by blast
  show ?thesis
    by (rule conjI, rule first, simp only: a prod.case, rule second)
qed

theorem move_per_axis_witness:
  "text_shape_ok (exNode\<lparr>moveRules := [yOnlyRule]\<rparr>)
   \<and> isAllowMoveByXORY exGraph 10 10 False (exNode\<lparr>moveRules := [yOnlyRule]\<rparr>) = (False, True)
   \<and> move exGraph 10 10 False (exNode\<lparr>moveRules := [yOnlyRule]\<rparr>) =
       (True, exNode\<lparr>moveRules := [yOnlyRule], node_y := 110,
                     node_text := TextRecord (exLabel\<lparr>text_y := 100\<rparr>)\<rparr>)"
proof -
  let ?n = "exNode\<lparr>moveRules := [yOnlyRule]\<rparr>"
  note w = move_per_axis [of exGraph 10 10 False ?n]
  have ok: "text_shape_ok ?n"
    by (simp add: text_shape_ok_def exNode_fields)
  have a: "isAllowMoveByXORY exGraph 10 10 False ?n = (False, True)"
    using w [THEN conjunct1] by (simp add: exNode_def exGraph_def yOnlyRule_def)
  have b: "fst (move exGraph 10 10 False ?n) = True
      \<and> snd (move exGraph 10 10 False ?n) =
          exNode\<lparr>moveRules := [yOnlyRule], node_y := 110,
                 node_text := TextRecord (exLabel\<lparr>text_y := 100\<rparr>)\<rparr>"
    using w [THEN conjunct2] ok unfolding a
    by (simp add: exNode_def shiftLabel_def exLabel_def)
  show ?thesis
    using ok a b by (simp add: prod_eq_iff)
qed

text \<open>
  C4, as stated, fails: \<^verbatim>\<open>moveTo\<close> does not shift the labels of every node it moves. It
  shifts them through \<^verbatim>\<open>moveText\<close>, which reads \<^verbatim>\<open>properties.labelConfig\<close> at the
  time of the move. After \<^verbatim>\<open>setProperties({labelConfig: {multiple: true}})\<close> the node
  of the examples, at (100,100), still has its single label record at (90,90);
  \<^verbatim>\<open>moveTo(110, 110)\<close> with no move rules then returns true and takes the node to
  (110,110), and the label is where it was.
\<close>

theorem moveTo_label_counterexample:
  "(let n = fst (setProperties (\<lambda>v. v) (\<lambda>m. m)
                  [(''labelConfig'', JObj [(''multiple'', JBool True)])] exNode)
    in node_x n = 100 \<and> node_y n = 100
       \<and> node_text n = TextRecord exLabel \<and> text_x exLabel = 90 \<and> text_y exLabel = 90
       \<and> properties n = [(''labelConfig'', JObj [(''multiple'', JBool True)])]
       \<and> isAllowMoveNode exGraph 10 10 n = MoveAxes True True
       \<and> moveTo exGraph 110 110 False n = (True, n\<lparr>node_x := 110, node_y := 110\<rparr>)
       \<and> node_text (snd (moveTo exGraph 110 110 False n)) = TextRecord exLabel
       \<and> node_text (snd (moveTo exGraph 110 110 False n)) \<noteq>
             TextRecord (exLabel\<lparr>text_x := 100, text_y := 100\<rparr>))"
proof -
  have a: "isAllowMoveNode exGraph 10 10 exSwitchedNode = MoveAxes True True"
    by (simp add: isAllowMoveNode_eq exSwitchedNode_eq exNode_fields exGraph_def)
  have t: "node_text exSwitchedNode = TextRecord exLabel"
    by (simp add: exSwitchedNode_eq exNode_fields)
  have m: "moveTo exGraph 110 110 False exSwitchedNode =
      (True, exSwitchedNode\<lparr>node_x := 110, node_y := 110\<rparr>)"
    by (simp add: moveTo_position moveTextIfAny_mismatch [OF _ t] exSwitchedNode_labelConfig)
       (simp add: exSwitchedNode_eq exNode_fields exGraph_def)
  show ?thesis
    unfolding Let_def exSwitchedNode_def [symmetric] a m
    by (simp add: exSwitchedNode_eq exNode_fields exLabel_def)
qed

text \<open>
  C4, amended. \<^verbatim>\<open>moveTo(x, y, ignoreRules)\<close>: the move rules are asked once, about the
  whole delta to the target point. A rule vetoes the move by answering a falsy boolean or
  a pair with both axes false; otherwise the answers accumulate per axis. \<^verbatim>\<open>moveTo\<close>
  reads the aggregate as one boolean: on a veto (rules not ignored) it returns false and
  changes nothing; in every other case, whatever the per-axis answers, it returns true
  with the node at exactly the target point. On a node whose text field has the shape that
  its label configuration asks for at that moment (a list when \<^verbatim>\<open>multiple\<close> is set, a
  single record or none otherwise), every label is then shifted by the whole delta, and
  no other field changes.
\<close>

theorem moveTo_whole_vector:
  "isAllowMoveNode g dx dy n =
     (if list_ex (\<lambda>rule. vetoes (rule (this_data n) dx dy)) (moveRules n @ nodeMoveRules g)
      then MoveBool False
      else MoveAxes
             (list_all (\<lambda>rule. allows_x (rule (this_data n) dx dy)) (moveRules n @ nodeMoveRules g))
             (list_all (\<lambda>rule. allows_y (rule (this_data n) dx dy)) (moveRules n @ nodeMoveRules g)))
   \<and> (let deltaX = tx - node_x n;
          deltaY = ty - node_y n;
          vetoed = list_ex (\<lambda>rule. vetoes (rule (this_data n) deltaX deltaY))
                     (moveRules n @ nodeMoveRules g)
      in if \<not> ig \<and> vetoed then moveTo g tx ty ig n = (False, n)
         else fst (moveTo g tx ty ig n) = True
              \<and> node_x (snd (moveTo g tx ty ig n)) = tx
              \<and> node_y (snd (moveTo g tx ty ig n)) = ty
              \<and> (text_shape_ok n \<longrightarrow>
                   snd (moveTo g tx ty ig n) =
                     n\<lparr>node_x := tx, node_y := ty,
                       node_text := mapLabels (shiftLabel deltaX deltaY) (node_text n)\<rparr>))"
proof
  show "isAllowMoveNode g dx dy n =
     (if list_ex (\<lambda>rule. vetoes (rule (this_data n) dx dy)) (moveRules n @ nodeMoveRules g)
      then MoveBool False
      else MoveAxes
             (list_all (\<lambda>rule. allows_x (rule (this_data n) dx dy)) (moveRules n @ nodeMoveRules g))
             (list_all (\<lambda>rule. allows_y (rule (this_data n) dx dy)) (moveRules n @ nodeMoveRules g)))"
    by (rule isAllowMoveNode_eq)
next
  show "let deltaX = tx - node_x n;
          deltaY = ty - node_y n;
          vetoed = list_ex (\<lambda>rule. vetoes (rule (this_data n) deltaX deltaY))
                     (moveRules n @ nodeMoveRules g)
      in if \<not> ig \<and> vetoed then moveTo g tx ty ig n = (False, n)
         else fst (moveTo g tx ty ig n) = True
              \<and> node_x (snd (moveTo g tx ty ig n)) = tx
              \<and> node_y (snd (moveTo g tx ty ig n)) = ty
              \<and> (text_shape_ok n \<longrightarrow>
                   snd (moveTo g tx ty ig n) =
                     n\<lparr>node_x := tx, node_y := ty,
                       node_text := mapLabels (shiftLabel deltaX deltaY) (node_text n)\<rparr>)"
    unfolding Let_def
  proof (cases "\<not> ig \<and> list_ex (\<lambda>rule. vetoes (rule (this_data n) (tx - node_x n) (ty - node_y n)))
                    (moveRules n @ nodeMoveRules g)")
    case True
    then show "if \<not> ig \<and> list_ex (\<lambda>rule. vetoes (rule (this_data n) (tx - node_x n) (ty - node_y n)))
                    (moveRules n @ nodeMoveRules g)
        then moveTo g tx ty ig n = (False, n)
        else fst (moveTo g tx ty ig n) = True
              \<and> node_x (snd (moveTo g tx ty ig n)) = tx
              \<and> node_y (snd (moveTo g tx ty ig n)) = ty
              \<and> (text_shape_ok n \<longrightarrow>
                   snd (moveTo g tx ty ig n) =
                     n\<lparr>node_x := tx, node_y := ty,
                       node_text := mapLabels (shiftLabel (tx - node_x n) (ty - node_y n))
                                      (node_text n)\<rparr>)"
      by (simp add: moveTo_position)
  next
    case False
    then show "if \<not> ig \<and> list_ex (\<lambda>rule. vetoes (rule (this_data n) (tx - node_x n) (ty - node_y n)))
                    (moveRules n @ nodeMoveRules g)
        then moveTo g tx ty ig n = (False, n)
        else fst (moveTo g tx ty ig n) = True
              \<and> node_x (snd (moveTo g tx ty ig n)) = tx
              \<and> node_y (snd (moveTo g tx ty ig n)) = ty
              \<and> (text_shape_ok n \<longrightarrow>
                   snd (moveTo g tx ty ig n) =
                     n\<lparr>node_x := tx, node_y := ty,
                       node_text := mapLabels (shiftLabel (tx - node_x n) (ty - node_y n))
                                      (node_text n)\<rparr>)"
      using moveTo_eq [of n g tx ty ig] by (auto simp: moveTo_position)
  qed
qed

theorem moveTo_whole_vector_witness:
  "text_shape_ok (exNode\<lparr>moveRules := [yOnlyRule]\<rparr>)
   \<and> isAllowMoveNode exGraph 10 10 (exNode\<lparr>moveRules := [yOnlyRule]\<rparr>) = MoveAxes False True
   \<and> moveTo exGraph 110 110 False (exNode\<lparr>moveRules := [yOnlyRule]\<rparr>) =
       (True, exNode\<lparr>moveRules := [yOnlyRule], node_x := 110, node_y := 110,
                     node_text := TextRecord (exLabel\<lparr>text_x := 100, text_y := 100\<rparr>)\<rparr>)"
proof -
  let ?n = "exNode\<lparr>moveRules := [yOnlyRule]\<rparr>"
  note w = moveTo_whole_vector [of exGraph 10 10 ?n 110 110 False]
  have ok: "text_shape_ok ?n"
    by (simp add: text_shape_ok_def exNode_fields)
  have a: "isAllowMoveNode exGraph 10 10 ?n = MoveAxes False True"
    using w [THEN conjunct1] by (simp add: exNode_def exGraph_def yOnlyRule_def)
  have v: "\<not> list_ex (\<lambda>rule. vetoes (rule (this_data ?n) (110 - node_x ?n) (110 - node_y ?n)))
                (moveRules ?n @ nodeMoveRules exGraph)"
    by (simp add: exGraph_def yOnlyRule_def)
  have b: "fst (moveTo exGraph 110 110 False ?n) = True
      \<and> snd (moveTo exGraph 110 110 False ?n) =
          exNode\<lparr>moveRules := [yOnlyRule], node_x := 110, node_y := 110,
                 node_text := TextRecord (exLabel\<lparr>text_x := 100, text_y := 100\<rparr>)\<rparr>"
    using w [THEN conjunct2] ok v unfolding Let_def
    by (simp add: exNode_def shiftLabel_def exLabel_def)
  show ?thesis
    using ok a b by (simp add: prod_eq_iff)
qed

subsection \<open>Connection rules\<close>

lemma connectRuleLoop_all_pass:
  "list_all call rules \<Longrightarrow>
   connectRuleLoop call rules = (\<lparr>isAllPass = True, msg = ''''\<rparr>, rules)"
  by (induction rules) simp_all

lemma connectRuleLoop_first_failure:
  "list_all call passed \<Longrightarrow> \<not> call failing \<Longrightarrow>
   connectRuleLoop call (passed @ failing # rest) =
     (\<lparr>isAllPass = False, msg = message failing\<rparr>, passed @ [failing])"
  by (induction passed) simp_all

text \<open>Every chain either passes as a whole or splits at its first failing rule.\<close>

lemma chain_cases:
  "list_all call rules \<or>
   (\<exists>passed failing rest. rules = passed @ failing # rest \<and> list_all call passed \<and> \<not> call failing)"
proof (induction rules)
  case Nil
  show ?case by simp
next
  case (Cons rule rules)
  show ?case
  proof (cases "call rule")
    case False
    then have "rule # rules = [] @ rule # rules \<and> list_all call [] \<and> \<not> call rule" by simp
    then show ?thesis by blast
  next
    case True
    from Cons.IH show ?thesis
    proof
      assume "list_all call rules"
      with True show ?thesis by simp
    next
      assume "\<exists>passed failing rest. rules = passed @ failing # rest \<and> list_all call passed \<and> \<not> call failing"
      then obtain passed failing rest
        where "rules = passed @ failing # rest" "list_all call passed" "\<not> call failing"
        by blast
      with True have "rule # rules = (rule # passed) @ failing # rest
          \<and> list_all call (rule # passed) \<and> \<not> call failing"
        by simp
      then show ?thesis by blast
    qed
  qed
qed

lemma this_data_flags [simp]:
  "this_data (n\<lparr>hasSetSourceRules := b\<rparr>) = this_data n"
  "this_data (n\<lparr>hasSetTargetRules := b\<rparr>) = this_data n"
  "this_data (n\<lparr>sourceRules := rs\<rparr>) = this_data n"
  "this_data (n\<lparr>targetRules := rs\<rparr>) = this_data n"
  by (simp_all add: this_data_def node_data.truncate_def)

lemma isAllowConnectedAsSource_loop:
  "fst (isAllowConnectedAsSource hook other sa ta eid n) =
     connectRuleLoop
       (\<lambda>rule. validate rule (this_data (snd (pullSourceRules hook n)))
                  (this_data (snd (pullSourceRules hook n))) other sa ta eid)
       (fst (pullSourceRules hook n))"
  by (simp add: isAllowConnectedAsSource_def Let_def split: prod.split)

lemma isAllowConnectedAsTarget_loop:
  "fst (isAllowConnectedAsTarget hook other sa ta eid n) =
     connectRuleLoop
       (\<lambda>rule. validate rule (this_data (snd (pullTargetRules hook n))) other
                  (this_data (snd (pullTargetRules hook n))) sa ta eid)
       (fst (pullTargetRules hook n))"
  by (simp add: isAllowConnectedAsTarget_def Let_def split: prod.split)

text \<open>What a rule sees of the node: its data, field by field.\<close>

lemma this_data_eq:
  "this_data n =
     \<lparr>node_id = node_id n, node_type = node_type n, node_x = node_x n, node_y = node_y n,
      node_text = node_text n, properties = properties n, width = width n, height = height n,
      anchorsOffset = anchorsOffset n, node_rotate = node_rotate n, transform = transform n,
      zIndex = zIndex n\<rparr>"
  by (simp add: this_data_def node_data.truncate_def)

lemma pullSourceRules_eq:
  "fst (pullSourceRules hook n) = (if hasSetSourceRules n then sourceRules n else fst (hook n))"
  "snd (pullSourceRules hook n) = (if hasSetSourceRules n then n else snd (hook n))"
  by (simp_all add: pullSourceRules_def)

lemma pullTargetRules_eq:
  "fst (pullTargetRules hook n) = (if hasSetTargetRules n then targetRules n else fst (hook n))"
  "snd (pullTargetRules hook n) = (if hasSetTargetRules n then n else snd (hook n))"
  by (simp_all add: pullTargetRules_def)

text \<open>
  C3. Evaluation of a chain short-circuits. With \<open>rules\<close> the chain at hand and \<open>owner\<close>
  the owning node (both as the hook returned them, if this evaluation called the hook),
  each predicate is called with the owning node as receiver, that is with the record \<open>me\<close>
  of the fields of \<open>owner\<close>, and with (source, target, source anchor, target anchor,
  edge id), the owning node being the source in \<^verbatim>\<open>isAllowConnectedAsSource\<close> and the
  target in \<^verbatim>\<open>isAllowConnectedAsTarget\<close>. If every predicate holds, the result is
  \<^verbatim>\<open>{isAllPass: true, msg: ""}\<close> and all were invoked. If the chain splits into rules
  that pass, a first one that fails, and a rest, the result is
  \<^verbatim>\<open>{isAllPass: false, msg: <message of the failing rule>}\<close> and the predicates invoked
  are those up to the failing one: none of the rest.
\<close>

theorem connect_rules_short_circuit:
  "(let rules = fst (pullSourceRules hook n);
        owner = snd (pullSourceRules hook n);
        me = \<lparr>node_id = node_id owner, node_type = node_type owner, node_x = node_x owner,
              node_y = node_y owner, node_text = node_text owner, properties = properties owner,
              width = width owner, height = height owner, anchorsOffset = anchorsOffset owner,
              node_rotate = node_rotate owner, transform = transform owner,
              zIndex = zIndex owner\<rparr>;
        result = fst (isAllowConnectedAsSource hook other sa ta eid n)
    in rules = (if hasSetSourceRules n then sourceRules n else fst (hook n))
     \<and> owner = (if hasSetSourceRules n then n else snd (hook n))
     \<and> (list_all (\<lambda>rule. validate rule me me other sa ta eid) rules \<longrightarrow>
          result = (\<lparr>isAllPass = True, msg = ''''\<rparr>, rules))
     \<and> (rules = passed @ failing # rest
          \<and> list_all (\<lambda>rule. validate rule me me other sa ta eid) passed
          \<and> \<not> validate failing me me other sa ta eid \<longrightarrow>
          result = (\<lparr>isAllPass = False, msg = message failing\<rparr>, passed @ [failing])))
   \<and> (let rules = fst (pullTargetRules hook n);
        owner = snd (pullTargetRules hook n);
        me = \<lparr>node_id = node_id owner, node_type = node_type owner, node_x = node_x owner,
              node_y = node_y owner, node_text = node_text owner, properties = properties owner,
              width = width owner, height = height owner, anchorsOffset = anchorsOffset owner,
              node_rotate = node_rotate owner, transform = transform owner,
              zIndex = zIndex owner\<rparr>;
        result = fst (isAllowConnectedAsTarget hook other sa ta eid n)
    in rules = (if hasSetTargetRules n then targetRules n else fst (hook n))
     \<and> owner = (if hasSetTargetRules n then n else snd (hook n))
     \<and> (list_all (\<lambda>rule. validate rule me other me sa ta eid) rules \<longrightarrow>
          result = (\<lparr>isAllPass = True, msg = ''''\<rparr>, rules))
     \<and> (rules = passed @ failing # rest
          \<and> list_all (\<lambda>rule. validate rule me other me sa ta eid) passed
          \<and> \<not> validate failing me other me sa ta eid \<longrightarrow>
          result = (\<lparr>isAllPass = False, msg = message failing\<rparr>, passed @ [failing])))"
  unfolding Let_def this_data_eq [symmetric]
    isAllowConnectedAsSource_loop isAllowConnectedAsTarget_loop
  by (intro conjI impI pullSourceRules_eq pullTargetRules_eq)
     (auto simp: connectRuleLoop_all_pass connectRuleLoop_first_failure)

theorem connect_rules_short_circuit_witness:
  "fst (isAllowConnectedAsSource getConnectedSourceRules exOther
          (Some exAnchor1) (Some exAnchor2) (Some ''e1'')
          (exNode\<lparr>sourceRules := [asSourceRule, failRule, passRule]\<rparr>)) =
       (\<lparr>isAllPass = False, msg = ''no''\<rparr>, [asSourceRule, failRule])
   \<and> fst (isAllowConnectedAsSource getConnectedSourceRules exOther
          (Some exAnchor1) (Some exAnchor2) (Some ''e1'')
          (exNode\<lparr>sourceRules := [asSourceRule, passRule]\<rparr>)) =
       (\<lparr>isAllPass = True, msg = ''''\<rparr>, [asSourceRule, passRule])
   \<and> fst (isAllowConnectedAsSource getConnectedSourceRules exOther
          (Some exAnchor1) (Some exAnchor2) (Some ''e1'')
          (exNode\<lparr>sourceRules := [asTargetRule, passRule]\<rparr>)) =
       (\<lparr>isAllPass = False, msg = ''not called as target''\<rparr>, [asTargetRule])
   \<and> fst (isAllowConnectedAsTarget getConnectedTargetRules exOther
          (Some exAnchor2) (Some exAnchor1) (Some ''e2'')
          (exNode\<lparr>targetRules := [passRule, asTargetRule, failRule, passRule]\<rparr>)) =
       (\<lparr>isAllPass = False, msg = ''no''\<rparr>, [passRule, asTargetRule, failRule])
   \<and> fst (isAllowConnectedAsTarget getConnectedTargetRules exOther
          (Some exAnchor2) (Some exAnchor1) (Some ''e2'')
          (exNode\<lparr>targetRules := [asTargetRule, passRule]\<rparr>)) =
       (\<lparr>isAllPass = True, msg = ''''\<rparr>, [asTargetRule, passRule])
   \<and> fst (isAllowConnectedAsTarget getConnectedTargetRules exOther
          (Some exAnchor2) (Some exAnchor1) (Some ''e2'')
          (exNode\<lparr>targetRules := [asSourceRule, passRule]\<rparr>)) =
       (\<lparr>isAllPass = False, msg = ''not called as source''\<rparr>, [asSourceRule])"
proof -
  let ?me = "\<lparr>node_id = ''n1'', node_type = ''rect'', node_x = 100, node_y = 100,
      node_text = TextRecord exLabel,
      properties = [(''labelConfig'', JObj [(''verticle'', JBool False), (''multiple'', JBool False)])],
      width = 100, height = 80, anchorsOffset = [], node_rotate = 0, transform = None,
      zIndex = 1\<rparr>"
  have other: "node_id exOther = ''n2''"
    by (simp add: exOther_def this_data_eq)
  have s: "validate asSourceRule ?me ?me exOther (Some exAnchor1) (Some exAnchor2) (Some ''e1'')"
    "\<not> validate asTargetRule ?me ?me exOther (Some exAnchor1) (Some exAnchor2) (Some ''e1'')"
    "\<not> validate failRule ?me ?me exOther (Some exAnchor1) (Some exAnchor2) (Some ''e1'')"
    "validate passRule ?me ?me exOther (Some exAnchor1) (Some exAnchor2) (Some ''e1'')"
    by (simp_all add: asSourceRule_def asTargetRule_def failRule_def passRule_def other)
  have t: "validate asTargetRule ?me exOther ?me (Some exAnchor2) (Some exAnchor1) (Some ''e2'')"
    "\<not> validate asSourceRule ?me exOther ?me (Some exAnchor2) (Some exAnchor1) (Some ''e2'')"
    "\<not> validate failRule ?me exOther ?me (Some exAnchor2) (Some exAnchor1) (Some ''e2'')"
    "validate passRule ?me exOther ?me (Some exAnchor2) (Some exAnchor1) (Some ''e2'')"
    by (simp_all add: asSourceRule_def asTargetRule_def failRule_def passRule_def other)
  have src: "fst (pullSourceRules getConnectedSourceRules (exNode\<lparr>sourceRules := rs\<rparr>)) = rs"
    "snd (pullSourceRules getConnectedSourceRules (exNode\<lparr>sourceRules := rs\<rparr>)) =
       exNode\<lparr>sourceRules := rs\<rparr>"
    for rs
    by (simp_all add: pullSourceRules_def getConnectedSourceRules_def exNode_fields)
  have tgt: "fst (pullTargetRules getConnectedTargetRules (exNode\<lparr>targetRules := rs\<rparr>)) = rs"
    "snd (pullTargetRules getConnectedTargetRules (exNode\<lparr>targetRules := rs\<rparr>)) =
       exNode\<lparr>targetRules := rs\<rparr>"
    for rs
    by (simp_all add: pullTargetRules_def getConnectedTargetRules_def exNode_fields)
  have f: "node_id (exNode\<lparr>sourceRules := rs\<rparr>) = ''n1''" "node_type (exNode\<lparr>sourceRules := rs\<rparr>) = ''rect''"
    "node_x (exNode\<lparr>sourceRules := rs\<rparr>) = 100" "node_y (exNode\<lparr>sourceRules := rs\<rparr>) = 100"
    "node_text (exNode\<lparr>sourceRules := rs\<rparr>) = TextRecord exLabel"
    "properties (exNode\<lparr>sourceRules := rs\<rparr>) =
       [(''labelConfig'', JObj [(''verticle'', JBool False), (''multiple'', JBool False)])]"
    "width (exNode\<lparr>sourceRules := rs\<rparr>) = 100" "height (exNode\<lparr>sourceRules := rs\<rparr>) = 80"
    "anchorsOffset (exNode\<lparr>sourceRules := rs\<rparr>) = []" "node_rotate (exNode\<lparr>sourceRules := rs\<rparr>) = 0"
    "transform (exNode\<lparr>sourceRules := rs\<rparr>) = None" "zIndex (exNode\<lparr>sourceRules := rs\<rparr>) = 1"
    "node_id (exNode\<lparr>targetRules := rs\<rparr>) = ''n1''" "node_type (exNode\<lparr>targetRules := rs\<rparr>) = ''rect''"
    "node_x (exNode\<lparr>targetRules := rs\<rparr>) = 100" "node_y (exNode\<lparr>targetRules := rs\<rparr>) = 100"
    "node_text (exNode\<lparr>targetRules := rs\<rparr>) = TextRecord exLabel"
    "properties (exNode\<lparr>targetRules := rs\<rparr>) =
       [(''labelConfig'', JObj [(''verticle'', JBool False), (''multiple'', JBool False)])]"
    "width (exNode\<lparr>targetRules := rs\<rparr>) = 100" "height (exNode\<lparr>targetRules := rs\<rparr>) = 80"
    "anchorsOffset (exNode\<lparr>targetRules := rs\<rparr>) = []" "node_rotate (exNode\<lparr>targetRules := rs\<rparr>) = 0"
    "transform (exNode\<lparr>targetRules := rs\<rparr>) = None" "zIndex (exNode\<lparr>targetRules := rs\<rparr>) = 1"
    for rs
    by (simp_all add: exNode_def)
  have a: "fst (isAllowConnectedAsSource getConnectedSourceRules exOther
          (Some exAnchor1) (Some exAnchor2) (Some ''e1'')
          (exNode\<lparr>sourceRules := [asSourceRule, failRule, passRule]\<rparr>)) =
       (\<lparr>isAllPass = False, msg = ''no''\<rparr>, [asSourceRule, failRule])"
    using connect_rules_short_circuit [of getConnectedSourceRules
        "exNode\<lparr>sourceRules := [asSourceRule, failRule, passRule]\<rparr>" exOther
        "Some exAnchor1" "Some exAnchor2" "Some ''e1''"
        "[asSourceRule]" failRule "[passRule]", THEN conjunct1, unfolded Let_def, THEN conjunct2, THEN conjunct2] s
    unfolding src f by (simp add: failRule_def)
  have b: "fst (isAllowConnectedAsSource getConnectedSourceRules exOther
          (Some exAnchor1) (Some exAnchor2) (Some ''e1'')
          (exNode\<lparr>sourceRules := [asSourceRule, passRule]\<rparr>)) =
       (\<lparr>isAllPass = True, msg = ''''\<rparr>, [asSourceRule, passRule])"
    using connect_rules_short_circuit [of getConnectedSourceRules
        "exNode\<lparr>sourceRules := [asSourceRule, passRule]\<rparr>" exOther
        "Some exAnchor1" "Some exAnchor2" "Some ''e1''"
        "[]" failRule "[]", THEN conjunct1, unfolded Let_def, THEN conjunct2, THEN conjunct2] s
    unfolding src f by simp
  have c: "fst (isAllowConnectedAsSource getConnectedSourceRules exOther
          (Some exAnchor1) (Some exAnchor2) (Some ''e1'')
          (exNode\<lparr>sourceRules := [asTargetRule, passRule]\<rparr>)) =
       (\<lparr>isAllPass = False, msg = ''not called as target''\<rparr>, [asTargetRule])"
    using connect_rules_short_circuit [of getConnectedSourceRules
        "exNode\<lparr>sourceRules := [asTargetRule, passRule]\<rparr>" exOther
        "Some exAnchor1" "Some exAnchor2" "Some ''e1''"
        "[]" asTargetRule "[passRule]", THEN conjunct1, unfolded Let_def, THEN conjunct2, THEN conjunct2] s
    unfolding src f by (simp add: asTargetRule_def)
  have d: "fst (isAllowConnectedAsTarget getConnectedTargetRules exOther
          (Some exAnchor2) (Some exAnchor1) (Some ''e2'')
          (exNode\<lparr>targetRules := [passRule, asTargetRule, failRule, passRule]\<rparr>)) =
       (\<lparr>isAllPass = False, msg = ''no''\<rparr>, [passRule, asTargetRule, failRule])"
    using connect_rules_short_circuit [of getConnectedTargetRules
        "exNode\<lparr>targetRules := [passRule, asTargetRule, failRule, passRule]\<rparr>" exOther
        "Some exAnchor2" "Some exAnchor1" "Some ''e2''"
        "[passRule, asTargetRule]" failRule "[passRule]", THEN conjunct2, unfolded Let_def, THEN conjunct2, THEN conjunct2] t
    unfolding tgt f by (simp add: failRule_def)
  have e: "fst (isAllowConnectedAsTarget getConnectedTargetRules exOther
          (Some exAnchor2) (Some exAnchor1) (Some ''e2'')
          (exNode\<lparr>targetRules := [asTargetRule, passRule]\<rparr>)) =
       (\<lparr>isAllPass = True, msg = ''''\<rparr>, [asTargetRule, passRule])"
    using connect_rules_short_circuit [of getConnectedTargetRules
        "exNode\<lparr>targetRules := [asTargetRule, passRule]\<rparr>" exOther
        "Some exAnchor2" "Some exAnchor1" "Some ''e2''"
        "[]" failRule "[]", THEN conjunct2, unfolded Let_def, THEN conjunct2, THEN conjunct2] t
    unfolding tgt f by simp
  have g: "fst (isAllowConnectedAsTarget getConnectedTargetRules exOther
          (Some exAnchor2) (Some exAnchor1) (Some ''e2'')
          (exNode\<lparr>targetRules := [asSourceRule, passRule]\<rparr>)) =
       (\<lparr>isAllPass = False, msg = ''not called as source''\<rparr>, [asSourceRule])"
    using connect_rules_short_circuit [of getConnectedTargetRules
        "exNode\<lparr>targetRules := [asSourceRule, passRule]\<rparr>" exOther
        "Some exAnchor2" "Some exAnchor1" "Some ''e2''"
        "[]" asSourceRule "[passRule]", THEN conjunct2, unfolded Let_def, THEN conjunct2, THEN conjunct2] t
    unfolding tgt f by (simp add: asSourceRule_def)
  show ?thesis using a b c d e g by simp
qed

lemma set_flag_again [simp]:
  "hasSetSourceRules n \<Longrightarrow> n\<lparr>hasSetSourceRules := True\<rparr> = n"
  "hasSetTargetRules n \<Longrightarrow> n\<lparr>hasSetTargetRules := True\<rparr> = n"
  by simp_all

lemma isAllowConnectedAsSource_flag:
  "hasSetSourceRules (snd (isAllowConnectedAsSource hook other sa ta eid n))"
  by (simp add: isAllowConnectedAsSource_def Let_def split: prod.split)

lemma isAllowConnectedAsTarget_flag:
  "hasSetTargetRules (snd (isAllowConnectedAsTarget hook other sa ta eid n))"
  by (simp add: isAllowConnectedAsTarget_def Let_def split: prod.split)

lemma isAllowConnectedAsSource_later:
  "hasSetSourceRules n \<Longrightarrow>
   isAllowConnectedAsSource hook other sa ta eid n =
     (connectRuleLoop (\<lambda>rule. validate rule (this_data n) (this_data n) other sa ta eid)
        (sourceRules n), n)"
  by (simp add: isAllowConnectedAsSource_def pullSourceRules_def)

lemma isAllowConnectedAsTarget_later:
  "hasSetTargetRules n \<Longrightarrow>
   isAllowConnectedAsTarget hook other sa ta eid n =
     (connectRuleLoop (\<lambda>rule. validate rule (this_data n) other (this_data n) sa ta eid)
        (targetRules n), n)"
  by (simp add: isAllowConnectedAsTarget_def pullTargetRules_def)

lemma isAllowConnectedAsSource_first:
  "\<not> hasSetSourceRules n \<Longrightarrow>
   isAllowConnectedAsSource hook other sa ta eid n =
     (connectRuleLoop
        (\<lambda>rule. validate rule (this_data (snd (hook n))) (this_data (snd (hook n))) other sa ta eid)
        (fst (hook n)),
      (snd (hook n))\<lparr>hasSetSourceRules := True\<rparr>)"
  by (simp add: isAllowConnectedAsSource_def pullSourceRules_def Let_def split: prod.split)

lemma isAllowConnectedAsTarget_first:
  "\<not> hasSetTargetRules n \<Longrightarrow>
   isAllowConnectedAsTarget hook other sa ta eid n =
     (connectRuleLoop
        (\<lambda>rule. validate rule (this_data (snd (hook n))) other (this_data (snd (hook n))) sa ta eid)
        (fst (hook n)),
      (snd (hook n))\<lparr>hasSetTargetRules := True\<rparr>)"
  by (simp add: isAllowConnectedAsTarget_def pullTargetRules_def Let_def split: prod.split)

text \<open>
  C2, as stated, fails: the node keeps no copy of the chain the hook returned. After the
  first evaluation only the flag is set, and a later evaluation reads the field
  \<^verbatim>\<open>sourceRules\<close> as it then is. First, with a hook that returns a list of its own
  (one failing rule) while \<^verbatim>\<open>sourceRules\<close> is empty, the first check fails with "no" and
  the second check of the same node passes. Second, with the default hook, a rule put into
  \<^verbatim>\<open>sourceRules\<close> after the first check is evaluated by the second.
\<close>

theorem connect_rules_cache_counterexample:
  "fst (fst (isAllowConnectedAsSource freshListHook (this_data exNode) None None None exNode)) =
      \<lparr>isAllPass = False, msg = ''no''\<rparr>
   \<and> fst (fst (isAllowConnectedAsSource freshListHook (this_data exNode) None None None
        (snd (isAllowConnectedAsSource freshListHook (this_data exNode) None None None exNode)))) =
      \<lparr>isAllPass = True, msg = ''''\<rparr>
   \<and> fst (fst (isAllowConnectedAsSource getConnectedSourceRules (this_data exNode) None None None exNode)) =
      \<lparr>isAllPass = True, msg = ''''\<rparr>
   \<and> fst (fst (isAllowConnectedAsSource getConnectedSourceRules (this_data exNode) None None None
        ((snd (isAllowConnectedAsSource getConnectedSourceRules (this_data exNode) None None None exNode))
           \<lparr>sourceRules := [failRule]\<rparr>))) =
      \<lparr>isAllPass = False, msg = ''no''\<rparr>"
  by (simp add: isAllowConnectedAsSource_def pullSourceRules_def freshListHook_def
      getConnectedSourceRules_def exNode_def failRule_def Let_def)

text \<open>
  C2, amended. An evaluation that finds the flag unset takes its chain from the hook and
  sets the flag. Every later evaluation, whatever the hook would now return, evaluates the
  node's own \<^verbatim>\<open>sourceRules\<close> (\<^verbatim>\<open>targetRules\<close>) as they are at that moment and leaves the
  node as it is. That list is the chain of the first evaluation when the hook returned the
  node's own list, as the default hook does.
\<close>

theorem connect_rules_hook_once:
  "(\<not> hasSetSourceRules n \<longrightarrow>
      isAllowConnectedAsSource hook other sa ta eid n =
        (connectRuleLoop
           (\<lambda>rule. validate rule (this_data (snd (hook n))) (this_data (snd (hook n))) other sa ta eid)
           (fst (hook n)),
         (snd (hook n))\<lparr>hasSetSourceRules := True\<rparr>))
   \<and> (let n1 = snd (isAllowConnectedAsSource hook other sa ta eid n)
      in isAllowConnectedAsSource hook' other' sa' ta' eid' n1 =
           (connectRuleLoop (\<lambda>rule. validate rule (this_data n1) (this_data n1) other' sa' ta' eid')
              (sourceRules n1), n1)
         \<and> (\<not> hasSetSourceRules n \<and> sourceRules (snd (hook n)) = fst (hook n) \<longrightarrow>
              sourceRules n1 = fst (hook n)))
   \<and> (\<not> hasSetTargetRules n \<longrightarrow>
      isAllowConnectedAsTarget hook other sa ta eid n =
        (connectRuleLoop
           (\<lambda>rule. validate rule (this_data (snd (hook n))) other (this_data (snd (hook n))) sa ta eid)
           (fst (hook n)),
         (snd (hook n))\<lparr>hasSetTargetRules := True\<rparr>))
   \<and> (let n1 = snd (isAllowConnectedAsTarget hook other sa ta eid n)
      in isAllowConnectedAsTarget hook' other' sa' ta' eid' n1 =
           (connectRuleLoop (\<lambda>rule. validate rule (this_data n1) other' (this_data n1) sa' ta' eid')
              (targetRules n1), n1)
         \<and> (\<not> hasSetTargetRules n \<and> targetRules (snd (hook n)) = fst (hook n) \<longrightarrow>
              targetRules n1 = fst (hook n)))"
proof (intro conjI)
  show "\<not> hasSetSourceRules n \<longrightarrow>
      isAllowConnectedAsSource hook other sa ta eid n =
        (connectRuleLoop
           (\<lambda>rule. validate rule (this_data (snd (hook n))) (this_data (snd (hook n))) other sa ta eid)
           (fst (hook n)),
         (snd (hook n))\<lparr>hasSetSourceRules := True\<rparr>)"
    by (simp add: isAllowConnectedAsSource_first)
  show "let n1 = snd (isAllowConnectedAsSource hook other sa ta eid n)
      in isAllowConnectedAsSource hook' other' sa' ta' eid' n1 =
           (connectRuleLoop (\<lambda>rule. validate rule (this_data n1) (this_data n1) other' sa' ta' eid')
              (sourceRules n1), n1)
         \<and> (\<not> hasSetSourceRules n \<and> sourceRules (snd (hook n)) = fst (hook n) \<longrightarrow>
              sourceRules n1 = fst (hook n))"
    unfolding Let_def
    by (simp add: isAllowConnectedAsSource_later [OF isAllowConnectedAsSource_flag]
        isAllowConnectedAsSource_first)
  show "\<not> hasSetTargetRules n \<longrightarrow>
      isAllowConnectedAsTarget hook other sa ta eid n =
        (connectRuleLoop
           (\<lambda>rule. validate rule (this_data (snd (hook n))) other (this_data (snd (hook n))) sa ta eid)
           (fst (hook n)),
         (snd (hook n))\<lparr>hasSetTargetRules := True\<rparr>)"
    by (simp add: isAllowConnectedAsTarget_first)
  show "let n1 = snd (isAllowConnectedAsTarget hook other sa ta eid n)
      in isAllowConnectedAsTarget hook' other' sa' ta' eid' n1 =
           (connectRuleLoop (\<lambda>rule. validate rule (this_data n1) other' (this_data n1) sa' ta' eid')
              (targetRules n1), n1)
         \<and> (\<not> hasSetTargetRules n \<and> targetRules (snd (hook n)) = fst (hook n) \<longrightarrow>
              targetRules n1 = fst (hook n))"
    unfolding Let_def
    by (simp add: isAllowConnectedAsTarget_later [OF isAllowConnectedAsTarget_flag]
        isAllowConnectedAsTarget_first)
qed

theorem connect_rules_hook_once_witness:
  "\<not> hasSetSourceRules exNode
   \<and> sourceRules (snd (getConnectedSourceRules exNode)) = fst (getConnectedSourceRules exNode)
   \<and> isAllowConnectedAsSource getConnectedSourceRules (this_data exNode) None None None exNode =
       ((\<lparr>isAllPass = True, msg = ''''\<rparr>, []), exNode\<lparr>hasSetSourceRules := True\<rparr>)
   \<and> isAllowConnectedAsSource freshListHook (this_data exNode) None None None
        (snd (isAllowConnectedAsSource getConnectedSourceRules (this_data exNode) None None None exNode)) =
       ((\<lparr>isAllPass = True, msg = ''''\<rparr>, []), exNode\<lparr>hasSetSourceRules := True\<rparr>)
   \<and> \<not> hasSetTargetRules exNode
   \<and> targetRules (snd (getConnectedTargetRules exNode)) = fst (getConnectedTargetRules exNode)
   \<and> isAllowConnectedAsTarget getConnectedTargetRules (this_data exNode) None None None exNode =
       ((\<lparr>isAllPass = True, msg = ''''\<rparr>, []), exNode\<lparr>hasSetTargetRules := True\<rparr>)
   \<and> isAllowConnectedAsTarget freshListHook (this_data exNode) None None None
        (snd (isAllowConnectedAsTarget getConnectedTargetRules (this_data exNode) None None None exNode)) =
       ((\<lparr>isAllPass = True, msg = ''''\<rparr>, []), exNode\<lparr>hasSetTargetRules := True\<rparr>)"
proof -
  let ?me = "this_data exNode"
  note ws = connect_rules_hook_once [of exNode getConnectedSourceRules ?me None None None
      freshListHook ?me None None None]
  note wt = connect_rules_hook_once [of exNode getConnectedTargetRules ?me None None None
      freshListHook ?me None None None]
  have h: "\<not> hasSetSourceRules exNode" "\<not> hasSetTargetRules exNode"
    "sourceRules (snd (getConnectedSourceRules exNode)) = fst (getConnectedSourceRules exNode)"
    "targetRules (snd (getConnectedTargetRules exNode)) = fst (getConnectedTargetRules exNode)"
    by (simp_all add: exNode_fields getConnectedSourceRules_def getConnectedTargetRules_def)
  have a: "isAllowConnectedAsSource getConnectedSourceRules ?me None None None exNode =
       ((\<lparr>isAllPass = True, msg = ''''\<rparr>, []), exNode\<lparr>hasSetSourceRules := True\<rparr>)"
    using ws [THEN conjunct1] h(1) by (simp add: getConnectedSourceRules_def exNode_fields)
  have b: "isAllowConnectedAsSource freshListHook ?me None None None
        (snd (isAllowConnectedAsSource getConnectedSourceRules ?me None None None exNode)) =
       ((\<lparr>isAllPass = True, msg = ''''\<rparr>, []), exNode\<lparr>hasSetSourceRules := True\<rparr>)"
    using ws [THEN conjunct2, THEN conjunct1] unfolding Let_def a
    by (simp add: exNode_fields)
  have c: "isAllowConnectedAsTarget getConnectedTargetRules ?me None None None exNode =
       ((\<lparr>isAllPass = True, msg = ''''\<rparr>, []), exNode\<lparr>hasSetTargetRules := True\<rparr>)"
    using wt [THEN conjunct2, THEN conjunct2, THEN conjunct1] h(2)
    by (simp add: getConnectedTargetRules_def exNode_fields)
  have d: "isAllowConnectedAsTarget freshListHook ?me None None None
        (snd (isAllowConnectedAsTarget getConnectedTargetRules ?me None None None exNode)) =
       ((\<lparr>isAllPass = True, msg = ''''\<rparr>, []), exNode\<lparr>hasSetTargetRules := True\<rparr>)"
    using wt [THEN conjunct2, THEN conjunct2, THEN conjunct2] unfolding Let_def c
    by (simp add: exNode_fields)
  show ?thesis using h a b c d by simp
qed

subsection \<open>The transform descriptor\<close>

lemma rotateAbout_eq:
  "rotateAbout x y theta =
     \<lparr>m_a = cos theta, m_b = sin theta, m_c = - sin theta, m_d = cos theta,
      m_e = x - x * cos theta + y * sin theta,
      m_f = y - x * sin theta - y * cos theta\<rparr>"
  by (simp add: rotateAbout_def cross_def translateMatrix_def rotateMatrix_def algebra_simps)

text \<open>The setter of \<^verbatim>\<open>rotate\<close> leaves rotation and descriptor consistent.\<close>

lemma set_rotate_consistent:
  "transform (set_rotate v n) =
     Some (rotateAbout (node_x (set_rotate v n)) (node_y (set_rotate v n))
             (node_rotate (set_rotate v n)))"
  by (simp add: set_rotate_def Let_def)

text \<open>The operations that change the position do not touch the descriptor.\<close>

lemma move_keeps_transform:
  "transform (snd (move g dx dy ig n)) = transform n"
  "node_rotate (snd (move g dx dy ig n)) = node_rotate n"
  by (simp_all add: move_def Let_def moveTextIfAny_fields split: prod.split)

lemma moveTo_keeps_transform:
  "transform (snd (moveTo g tx ty ig n)) = transform n"
  "node_rotate (snd (moveTo g tx ty ig n)) = node_rotate n"
  by (simp_all add: moveTo_def Let_def moveTextIfAny_fields)

lemma getMoveDistance_keeps_transform:
  "transform (snd (getMoveDistance g dx dy ig n)) = transform n"
  "node_rotate (snd (getMoveDistance g dx dy ig n)) = node_rotate n"
  by (simp_all add: getMoveDistance_def Let_def moveTextIfAny_fields split: prod.split)

lemma resize_keeps_transform:
  assumes "\<And>m. transform (setAttributes m) = transform m"
  shows "transform (fst (snd (resize formatData setAttributes g resizeInfo n))) = transform n"
  using assms
  by (simp add: resize_def setProperties_def Let_def move_keeps_transform split: prod.split)

text \<open>
  C5. The code at the failing input: the node of the examples, at (100,100), is given the
  rotation \<open>\<pi>\<close>, which computes the descriptor for that center; \<^verbatim>\<open>move(10, 0)\<close> then
  takes the node to (110,100) and leaves the descriptor as it was, the half turn about
  (100,100), which is not the half turn about the node's new center.
\<close>

theorem transform_stale_after_move:
  "(let n1 = set_rotate pi exNode;
        n2 = snd (move exGraph 10 0 False n1)
    in transform n1 = Some (rotateAbout (node_x n1) (node_y n1) (node_rotate n1))
       \<and> node_x n2 = 110 \<and> node_y n2 = 100 \<and> node_rotate n2 = pi
       \<and> transform n2 = Some (rotateAbout 100 100 pi)
       \<and> transform n2 \<noteq> Some (rotateAbout (node_x n2) (node_y n2) (node_rotate n2)))"
proof -
  let ?n1 = "set_rotate pi exNode"
  let ?n2 = "snd (move exGraph 10 0 False ?n1)"
  have c: "transform ?n1 = Some (rotateAbout (node_x ?n1) (node_y ?n1) (node_rotate ?n1))"
    by (rule set_rotate_consistent)
  have p: "node_x ?n1 = 100" "node_y ?n1 = 100" "node_rotate ?n1 = pi"
    by (simp_all add: set_rotate_def Let_def exNode_fields)
  have a: "isAllowMoveByXORY exGraph 10 0 False ?n1 = (True, True)"
    by (simp add: isAllowMoveByXORY_eq set_rotate_def Let_def exNode_fields exGraph_def)
  have x: "node_x ?n2 = 110" "node_y ?n2 = 100"
    using move_position [OF a] p by simp_all
  have t: "transform ?n2 = Some (rotateAbout 100 100 pi)"
    using c p by (simp add: move_keeps_transform)
  have r: "node_rotate ?n2 = pi"
    using p by (simp add: move_keeps_transform)
  have d: "rotateAbout 100 100 pi \<noteq> rotateAbout 110 100 pi"
    by (simp add: rotateAbout_eq)
  show ?thesis
    unfolding Let_def using c x t r d by simp
qed

subsection \<open>Deleting labels\<close>

lemma deleteText_index_irrelevant:
  "deleteText \<lparr>info_index = i, info_id = d\<rparr> n = deleteText \<lparr>info_index = None, info_id = d\<rparr> n"
  by (simp add: deleteText_def isArray_noarg_def split: text_field.split)

lemma splice1_nth:
  "i < length xs \<Longrightarrow> splice1 (int i) xs = take i xs @ drop (Suc i) xs"
  by (simp add: splice1_def Let_def)

lemma findIndex_None: "findIndex p xs = None \<longleftrightarrow> \<not> list_ex p xs"
  by (induction xs) (auto split: option.splits)

lemma findIndex_Some:
  "findIndex p xs = Some i \<Longrightarrow> i < length xs \<and> p (xs ! i) \<and> \<not> list_ex p (take i xs)"
proof (induction xs arbitrary: i)
  case Nil
  then show ?case by simp
next
  case (Cons x xs)
  show ?case
  proof (cases "p x")
    case True
    with Cons.prems show ?thesis by simp
  next
    case False
    with Cons.prems obtain j where j: "findIndex p xs = Some j" "i = Suc j"
      by (auto split: option.splits)
    from Cons.IH [OF j(1)] False j(2) show ?thesis by simp
  qed
qed

text \<open>
  What \<^verbatim>\<open>deleteText\<close> does do: in a list, the first record with the given id goes and an
  id that matches none changes nothing; a single record stays, with value and content
  cleared.
\<close>

lemma deleteText_by_id:
  assumes "node_text n = TextArray ls"
  shows "deleteText \<lparr>info_index = i, info_id = d\<rparr> n =
     (case findIndex (\<lambda>item. Some (text_id item) = d) ls of
        None \<Rightarrow> n
      | Some k \<Rightarrow> n\<lparr>node_text := TextArray (take k ls @ drop (Suc k) ls)\<rparr>)"
proof (cases "findIndex (\<lambda>item. Some (text_id item) = d) ls")
  case None
  then show ?thesis by (simp add: deleteText_def isArray_noarg_def assms)
next
  case (Some k)
  then have "k < length ls" by (simp add: findIndex_Some)
  with Some show ?thesis
    by (simp add: deleteText_def isArray_noarg_def assms splice1_nth)
qed

lemma deleteText_single:
  "node_text n = TextRecord l \<Longrightarrow>
   deleteText info n = n\<lparr>node_text := TextRecord (l\<lparr>text_value := '''', content := ''''\<rparr>)\<rparr>"
  by (simp add: deleteText_def)

text \<open>
  C6. The code at the failing input: on a node in multiple-label mode with the labels
  \<open>t1\<close> and \<open>t2\<close>, \<^verbatim>\<open>deleteText({index: 1})\<close> and \<^verbatim>\<open>deleteText({index: 0})\<close> remove
  nothing (the index branch is never taken, and no id was given to match), while
  \<^verbatim>\<open>deleteText({id: "t2"})\<close> removes the second label.
\<close>

theorem deleteText_index_ignored:
  "deleteText \<lparr>info_index = Some 1, info_id = None\<rparr> exMultiNode = exMultiNode
   \<and> deleteText \<lparr>info_index = Some 0, info_id = None\<rparr> exMultiNode = exMultiNode
   \<and> deleteText \<lparr>info_index = None, info_id = Some ''t2''\<rparr> exMultiNode =
       exMultiNode\<lparr>node_text := TextArray [exLabel]\<rparr>"
  by (simp add: deleteText_def isArray_noarg_def exMultiNode_def exLabel_def exLabel2_def
      splice1_def Let_def)

subsection \<open>Adding labels\<close>

text \<open>Without a label configuration \<^verbatim>\<open>addText\<close> throws at its destructuring.\<close>

lemma addText_no_config:
  "\<not> hasLabelConfig n \<Longrightarrow> addText newId p n = Inl TypeError"
  by (simp add: addText_def hasLabelConfig_def)








subsection \<open>The data snapshot\<close>

text \<open>
  C10. \<^verbatim>\<open>getData\<close> and the text field. For a single record the snapshot has no
  \<^verbatim>\<open>text\<close> when the value is empty and \<^verbatim>\<open>{x, y, value, content}\<close> of the record
  otherwise. For a list the snapshot always has \<^verbatim>\<open>text\<close>: the list of the projections
  of all its records, in order, none filtered out (so as many as there are labels). Where
  the text field has the shape that the label configuration asks for, these are the
  single-label and the multiple-label mode.
\<close>

theorem getData_text:
  "(node_text n = TextRecord l \<longrightarrow>
      d_text (getData g n) =
        (if text_value l = '''' then None
         else Some (DataTextOne \<lparr>td_x = text_x l, td_y = text_y l, td_value = text_value l,
                                  td_content = content l\<rparr>)))
   \<and> (node_text n = TextArray ls \<longrightarrow>
      d_text (getData g n) =
        Some (DataTextList (map (\<lambda>l. \<lparr>td_x = text_x l, td_y = text_y l, td_value = text_value l,
                                        td_content = content l\<rparr>) ls)))
   \<and> (text_shape_ok n \<and> \<not> multiple (labelConfig n) \<longrightarrow>
      d_text (getData g n) =
        (case node_text n of
           TextRecord l \<Rightarrow> if text_value l = '''' then None else Some (DataTextOne (textData l))
         | _ \<Rightarrow> None))
   \<and> (text_shape_ok n \<and> multiple (labelConfig n) \<longrightarrow>
      (\<exists>ls. node_text n = TextArray ls
           \<and> d_text (getData g n) = Some (DataTextList (map textData ls))))"
  by (cases "node_text n") (auto simp: getData_def textData_def text_shape_ok_def)

theorem getData_text_witness:
  "node_text exNode = TextRecord exLabel
   \<and> d_text (getData exGraph exNode) =
       Some (DataTextOne \<lparr>td_x = 90, td_y = 90, td_value = ''hi'', td_content = ''hi''\<rparr>)
   \<and> d_text (getData exGraph (deleteText \<lparr>info_index = None, info_id = None\<rparr> exNode)) = None
   \<and> text_shape_ok exEmptyMultiNode \<and> multiple (labelConfig exEmptyMultiNode)
   \<and> d_text (getData exGraph exEmptyMultiNode) = Some (DataTextList [])"
proof -
  have t: "node_text exEmptyMultiNode = TextArray []"
    by (simp add: exEmptyMultiNode_def)
  have m: "multiple (labelConfig exEmptyMultiNode)"
    by (simp add: exMultiNode_labelConfig)
  have e: "text_shape_ok exEmptyMultiNode" "multiple (labelConfig exEmptyMultiNode)"
    "node_text exEmptyMultiNode = TextArray []"
    by (simp_all add: text_shape_ok_def t m)
  show ?thesis
    using getData_text [of exNode exLabel exGraph "[]"]
      getData_text [of "deleteText \<lparr>info_index = None, info_id = None\<rparr> exNode"
        "exLabel\<lparr>text_value := '''', content := ''''\<rparr>" exGraph "[]"]
      getData_text [of exEmptyMultiNode exLabel exGraph "[]"] e
    by (simp add: exNode_fields exLabel_def deleteText_def)
qed

subsection \<open>Anchors\<close>

lemma rotatePoint_eq:
  "rotatePoint x y theta (px, py) =
     (x + (px - x) * cos theta - (py - y) * sin theta,
      y + (px - x) * sin theta + (py - y) * cos theta)"
  by (simp add: rotatePoint_def crossPoint_def translateMatrix_def rotateMatrix_def algebra_simps)

lemma getAnchorsByOffset_nth:
  assumes "anchorsOffset n \<noteq> []" "i < length (anchorsOffset n)"
  shows "getAnchorsByOffset d n ! i =
           offsetAnchor (node_id n) (node_x n) (node_y n) i (anchorsOffset n ! i)"
  using assms by (simp add: getAnchorsByOffset_def nth_enumerate_eq)

lemma getAnchorsByOffset_length:
  "anchorsOffset n \<noteq> [] \<Longrightarrow> length (getAnchorsByOffset d n) = length (anchorsOffset n)"
  by (simp add: getAnchorsByOffset_def)

lemma anchors_eq:
  "anchors d n =
     map (\<lambda>a. a\<lparr>anchor_x := node_x n + (anchor_x a - node_x n) * cos (node_rotate n)
                              - (anchor_y a - node_y n) * sin (node_rotate n),
                 anchor_y := node_y n + (anchor_x a - node_x n) * sin (node_rotate n)
                              + (anchor_y a - node_y n) * cos (node_rotate n)\<rparr>)
       (getAnchorsByOffset d n)"
  by (simp add: anchors_def rotatePoint_eq)

text \<open>
  C9. With a non-empty offset list, \<^verbatim>\<open>getAnchorsByOffset\<close> yields one anchor per entry, in
  order: for a legacy pair \<^verbatim>\<open>[ex, ey]\<close> the point (x + ex, y + ey) with the id
  \<^verbatim>\<open>`${id}_${idx}`\<close>; for a record the point (x + el.x, y + el.y) with the record's own
  id, or \<^verbatim>\<open>`${id}_${idx}`\<close> when it has none (or an empty one), its other fields kept. The
  getter \<^verbatim>\<open>anchors\<close> returns that list with every point rotated about the node's
  center by the node's rotation.
\<close>

theorem anchors_by_offset:
  "(anchorsOffset n \<noteq> [] \<longrightarrow>
      length (getAnchorsByOffset d n) = length (anchorsOffset n)
      \<and> (\<forall>i. i < length (anchorsOffset n) \<longrightarrow>
            getAnchorsByOffset d n ! i =
              (case anchorsOffset n ! i of
                 OffsetTuple ex ey \<Rightarrow>
                   \<lparr>anchor_id = node_id n @ ''_'' @ string_of_nat i,
                    anchor_x = node_x n + ex, anchor_y = node_y n + ey, anchor_rest = []\<rparr>
               | OffsetPoint elid ex ey rest \<Rightarrow>
                   \<lparr>anchor_id = (case elid of
                                   None \<Rightarrow> node_id n @ ''_'' @ string_of_nat i
                                 | Some given \<Rightarrow>
                                     if given = [] then node_id n @ ''_'' @ string_of_nat i else given),
                    anchor_x = node_x n + ex, anchor_y = node_y n + ey, anchor_rest = rest\<rparr>)))
   \<and> anchors d n =
       map (\<lambda>a. a\<lparr>anchor_x := node_x n + (anchor_x a - node_x n) * cos (node_rotate n)
                                - (anchor_y a - node_y n) * sin (node_rotate n),
                   anchor_y := node_y n + (anchor_x a - node_x n) * sin (node_rotate n)
                                + (anchor_y a - node_y n) * cos (node_rotate n)\<rparr>)
         (getAnchorsByOffset d n)"
proof (intro conjI impI allI)
  assume ne: "anchorsOffset n \<noteq> []"
  then show "length (getAnchorsByOffset d n) = length (anchorsOffset n)"
    by (rule getAnchorsByOffset_length)
  fix i
  assume i: "i < length (anchorsOffset n)"
  show "getAnchorsByOffset d n ! i =
      (case anchorsOffset n ! i of
         OffsetTuple ex ey \<Rightarrow>
           \<lparr>anchor_id = node_id n @ ''_'' @ string_of_nat i,
            anchor_x = node_x n + ex, anchor_y = node_y n + ey, anchor_rest = []\<rparr>
       | OffsetPoint elid ex ey rest \<Rightarrow>
           \<lparr>anchor_id = (case elid of
                           None \<Rightarrow> node_id n @ ''_'' @ string_of_nat i
                         | Some given \<Rightarrow>
                             if given = [] then node_id n @ ''_'' @ string_of_nat i else given),
            anchor_x = node_x n + ex, anchor_y = node_y n + ey, anchor_rest = rest\<rparr>)"
    unfolding getAnchorsByOffset_nth [OF ne i]
    by (cases "anchorsOffset n ! i") (simp_all add: anchorIdOf_def split: option.split)
next
  show "anchors d n =
       map (\<lambda>a. a\<lparr>anchor_x := node_x n + (anchor_x a - node_x n) * cos (node_rotate n)
                                - (anchor_y a - node_y n) * sin (node_rotate n),
                   anchor_y := node_y n + (anchor_x a - node_x n) * sin (node_rotate n)
                                + (anchor_y a - node_y n) * cos (node_rotate n)\<rparr>)
         (getAnchorsByOffset d n)"
    by (rule anchors_eq)
qed

theorem anchors_by_offset_witness:
  "anchorsOffset exAnchorNode \<noteq> []
   \<and> node_x exAnchorNode = 100 \<and> node_y exAnchorNode = 100 \<and> node_rotate exAnchorNode = pi / 2
   \<and> getAnchorsByOffset baseDefaultAnchor exAnchorNode =
       [\<lparr>anchor_id = ''n1_0'', anchor_x = 150, anchor_y = 100, anchor_rest = []\<rparr>,
        \<lparr>anchor_id = ''top'', anchor_x = 100, anchor_y = 60, anchor_rest = []\<rparr>,
        \<lparr>anchor_id = ''n1_2'', anchor_x = 50, anchor_y = 100, anchor_rest = []\<rparr>]
   \<and> anchors baseDefaultAnchor exAnchorNode =
       [\<lparr>anchor_id = ''n1_0'', anchor_x = 100, anchor_y = 150, anchor_rest = []\<rparr>,
        \<lparr>anchor_id = ''top'', anchor_x = 140, anchor_y = 100, anchor_rest = []\<rparr>,
        \<lparr>anchor_id = ''n1_2'', anchor_x = 100, anchor_y = 50, anchor_rest = []\<rparr>]"
proof -
  have f: "anchorsOffset exAnchorNode =
      [OffsetTuple 50 0, OffsetPoint (Some ''top'') 0 (- 40) [], OffsetPoint None (- 50) 0 []]"
    "node_x exAnchorNode = 100" "node_y exAnchorNode = 100" "node_rotate exAnchorNode = pi / 2"
    "node_id exAnchorNode = ''n1''"
    by (simp_all add: exAnchorNode_def set_rotate_def Let_def exNode_fields)
  have g: "getAnchorsByOffset baseDefaultAnchor exAnchorNode =
       [\<lparr>anchor_id = ''n1_0'', anchor_x = 150, anchor_y = 100, anchor_rest = []\<rparr>,
        \<lparr>anchor_id = ''top'', anchor_x = 100, anchor_y = 60, anchor_rest = []\<rparr>,
        \<lparr>anchor_id = ''n1_2'', anchor_x = 50, anchor_y = 100, anchor_rest = []\<rparr>]"
    by (simp add: getAnchorsByOffset_def f enumerate_eq_zip upt_rec anchorIdOf_def
        string_of_nat.simps digit_char_def)
  have "anchors baseDefaultAnchor exAnchorNode =
       [\<lparr>anchor_id = ''n1_0'', anchor_x = 100, anchor_y = 150, anchor_rest = []\<rparr>,
        \<lparr>anchor_id = ''top'', anchor_x = 140, anchor_y = 100, anchor_rest = []\<rparr>,
        \<lparr>anchor_id = ''n1_2'', anchor_x = 100, anchor_y = 50, anchor_rest = []\<rparr>]"
    using anchors_by_offset [of exAnchorNode baseDefaultAnchor, THEN conjunct2]
    unfolding g f by simp
  with f g show ?thesis by simp
qed

subsection \<open>Properties\<close>

lemma has_key_iff: "has_key ps key \<longleftrightarrow> map_of ps key \<noteq> None"
  by (simp add: has_key_def map_of_eq_None_iff)

lemma map_of_toJS: "map_of (toJS obj) key = valueAt obj key"
  by (simp add: toJS_def map_of_objectOf)

text \<open>The test of \<^verbatim>\<open>setProperties\<close> on one supplied entry, in terms of the old map.\<close>

lemma changed_test:
  "((has_key pre key \<and> strictNeqCopy (getProp pre key) val) \<or> \<not> has_key pre key)
     \<longleftrightarrow> (\<not> isPrimitive val \<or> map_of pre key \<noteq> Some val)"
proof (cases "map_of pre key")
  case None
  then show ?thesis by (simp add: has_key_iff)
next
  case (Some old)
  then show ?thesis
    by (cases "isPrimitive val"; cases "isPrimitive old")
       (auto simp: has_key_iff getProp_def strictNeqCopy_def)
qed

text \<open>
  The keys listed by \<^verbatim>\<open>setProperties\<close>, in the order in which \<^verbatim>\<open>mapKeys\<close> visits
  the supplied object.
\<close>

lemma setProperties_keys:
  "ev_keys (snd (setProperties formatData setAttributes props n)) =
     map fst (filter (\<lambda>(key, val). \<not> isPrimitive val \<or> valueAt (properties n) key \<noteq> Some val)
                (objectOf props))"
proof -
  have "(\<lambda>(key, val). (has_key (toJS (properties n)) key
              \<and> strictNeqCopy (getProp (toJS (properties n)) key) val)
            \<or> \<not> has_key (toJS (properties n)) key)
      = (\<lambda>(key, val). \<not> isPrimitive val \<or> valueAt (properties n) key \<noteq> Some val)"
    by (simp add: changed_test map_of_toJS)
  then show ?thesis by (simp add: setProperties_def Let_def)
qed

lemma setProperties_keys_set:
  "distinct (ev_keys (snd (setProperties formatData setAttributes props n)))"
  "set (ev_keys (snd (setProperties formatData setAttributes props n))) =
     {key. \<exists>val. valueAt props key = Some val
             \<and> (\<not> isPrimitive val \<or> valueAt (properties n) key \<noteq> Some val)}"
proof -
  show "distinct (ev_keys (snd (setProperties formatData setAttributes props n)))"
    unfolding setProperties_keys by (rule distinct_map_filter) (rule objectOf_distinct)
  show "set (ev_keys (snd (setProperties formatData setAttributes props n))) =
     {key. \<exists>val. valueAt props key = Some val
             \<and> (\<not> isPrimitive val \<or> valueAt (properties n) key \<noteq> Some val)}"
    unfolding setProperties_keys by (auto simp: objectOf_entry image_iff)
qed

lemma setProperties_twice:
  assumes p: "list_all (\<lambda>(key, val). isPrimitive val) props"
      and f: "formatData (JObj (objectOf props)) = JObj (objectOf props)"
      and h: "\<forall>m. properties (setAttributes m) = properties m"
  shows "ev_keys (snd (setProperties formatData setAttributes props
                         (fst (setProperties formatData setAttributes props n)))) = []"
proof -
  let ?n1 = "fst (setProperties formatData setAttributes props n)"
  have n1: "properties ?n1 = spread (toJS (properties n)) (objectOf props)"
    using h by (simp add: setProperties_def Let_def f)
  have "\<not> (\<not> isPrimitive val \<or> valueAt (properties ?n1) key \<noteq> Some val)"
    if "(key, val) \<in> set (objectOf props)" for key val
  proof -
    from that have v: "valueAt props key = Some val" by (simp add: objectOf_entry)
    then have "(key, val) \<in> set (rev props)" unfolding valueAt_def by (rule map_of_SomeD)
    with p have "isPrimitive val" by (auto simp: list_all_iff)
    moreover have "valueAt (properties ?n1) key = Some val"
      unfolding n1
      by (simp add: valueAt_distinct spread_distinct map_of_spread valueAt_objectOf v)
    ultimately show ?thesis by simp
  qed
  then have "filter (\<lambda>(key, val). \<not> isPrimitive val \<or> valueAt (properties ?n1) key \<noteq> Some val)
               (objectOf props) = []"
    by (auto simp: filter_empty_conv)
  then show ?thesis by (simp add: setProperties_keys)
qed

text \<open>
  The order of the keys: with the properties \<^verbatim>\<open>{labelConfig, b}\<close>,
  \<^verbatim>\<open>setProperties({c: 1, 2: true, b: "x"})\<close> lists the array index first, and the new
  map has it before the other keys.
\<close>

lemma setProperties_key_order_example:
  "(let result = setProperties (\<lambda>v. v) (\<lambda>m. m)
                   [(''c'', JNum 1), (''2'', JBool True), (''b'', JStr ''x'')]
                   (exNode\<lparr>properties := [(''labelConfig'', JNull), (''b'', JStr ''y'')]\<rparr>)
    in ev_keys (snd result) = [''2'', ''c'', ''b'']
       \<and> ev_properties (snd result) =
           [(''2'', JBool True), (''labelConfig'', JNull), (''b'', JStr ''x''), (''c'', JNum 1)])"
  by (simp add: setProperties_def Let_def toJS_def spread_def objectOf_def setKey_def
      arrayIndex_def digit_of_def string_of_nat.simps digit_char_def has_key_def getProp_def
      strictNeqCopy_def)

text \<open>
  C7, as stated, fails. First, \<^verbatim>\<open>setProperties\<close> compares with \<^verbatim>\<open>!==\<close>, and an object
  is never identical to the copy kept of it: applying \<^verbatim>\<open>setProperties({size: {w: 1}})\<close>
  twice lists \<open>size\<close> the second time too, although the property map does not change.
  Second, \<^verbatim>\<open>setProperty\<close> compares nothing: \<^verbatim>\<open>setProperty('color', 'red')\<close> applied twice
  lists \<open>color\<close> both times.
\<close>

theorem properties_changed_keys_counterexample:
  "ev_keys (snd (setProperties (\<lambda>v. v) (\<lambda>m. m) [(''size'', JObj [(''w'', JNum 1)])]
       (fst (setProperties (\<lambda>v. v) (\<lambda>m. m) [(''size'', JObj [(''w'', JNum 1)])] exNode)))) = [''size'']
   \<and> properties (fst (setProperties (\<lambda>v. v) (\<lambda>m. m) [(''size'', JObj [(''w'', JNum 1)])]
       (fst (setProperties (\<lambda>v. v) (\<lambda>m. m) [(''size'', JObj [(''w'', JNum 1)])] exNode)))) =
     properties (fst (setProperties (\<lambda>v. v) (\<lambda>m. m) [(''size'', JObj [(''w'', JNum 1)])] exNode))
   \<and> ev_keys (snd (setProperty (\<lambda>v. v) (\<lambda>m. m) ''color'' (JStr ''red'')
       (fst (setProperty (\<lambda>v. v) (\<lambda>m. m) ''color'' (JStr ''red'') exNode)))) = [''color'']
   \<and> properties (fst (setProperty (\<lambda>v. v) (\<lambda>m. m) ''color'' (JStr ''red'')
       (fst (setProperty (\<lambda>v. v) (\<lambda>m. m) ''color'' (JStr ''red'') exNode)))) =
     properties (fst (setProperty (\<lambda>v. v) (\<lambda>m. m) ''color'' (JStr ''red'') exNode))"
  by (simp add: setProperties_def setProperty_def Let_def toJS_def spread_def objectOf_def
      setKey_def arrayIndex_def digit_of_def has_key_def getProp_def strictNeqCopy_def
      exNode_fields)

text \<open>
  C7, amended. \<^verbatim>\<open>setProperty\<close> and \<^verbatim>\<open>setProperties\<close> build a new map, a copy of the
  old one merged with the formatted new values, and report both maps. The notification of
  \<^verbatim>\<open>setProperties\<close> lists, each once, exactly the supplied keys whose supplied value is
  an object or array, or is a primitive that the old map does not hold under that key (the
  key is new or its value differs). So applying \<^verbatim>\<open>setProperties\<close> twice with the same
  object lists nothing the second time, provided its values are primitives, \<open>formatData\<close>
  leaves the object as it is and the hook \<open>setAttributes\<close> does not touch the properties.
  Nothing is said of the keys \<^verbatim>\<open>setProperty\<close> lists. (\<open>valueAt\<close> reads a list of
  entries as the object it builds.)
\<close>

theorem setProperties_changed_keys:
  "(let pre = toJS (properties n);
        next = spread pre (ownEntries (formatData (JObj (objectOf props))));
        result = setProperties formatData setAttributes props n
    in fst result = setAttributes (n\<lparr>properties := next\<rparr>)
       \<and> ev_preProperties (snd result) = pre
       \<and> ev_properties (snd result) = next
       \<and> distinct (ev_keys (snd result))
       \<and> set (ev_keys (snd result)) =
           {key. \<exists>val. valueAt props key = Some val
                   \<and> (\<not> isPrimitive val \<or> valueAt (properties n) key \<noteq> Some val)})
   \<and> map_of (toJS obj) k = valueAt obj k
   \<and> map_of (spread old new) k =
       (case valueAt new k of Some val \<Rightarrow> Some val | None \<Rightarrow> valueAt old k)
   \<and> (list_all (\<lambda>(key, val). isPrimitive val) props
        \<and> formatData (JObj (objectOf props)) = JObj (objectOf props)
        \<and> (\<forall>m. properties (setAttributes m) = properties m) \<longrightarrow>
        ev_keys (snd (setProperties formatData setAttributes props
                        (fst (setProperties formatData setAttributes props n)))) = [])
   \<and> (let pre = toJS (properties n);
          next = spread pre [(key, formatData v)];
          result = setProperty formatData setAttributes key v n
      in fst result = setAttributes (n\<lparr>properties := next\<rparr>)
         \<and> ev_preProperties (snd result) = pre
         \<and> ev_properties (snd result) = next
         \<and> map_of next = (map_of pre)(key \<mapsto> formatData v))"
proof (intro conjI impI)
  show "let pre = toJS (properties n);
        next = spread pre (ownEntries (formatData (JObj (objectOf props))));
        result = setProperties formatData setAttributes props n
    in fst result = setAttributes (n\<lparr>properties := next\<rparr>)
       \<and> ev_preProperties (snd result) = pre
       \<and> ev_properties (snd result) = next
       \<and> distinct (ev_keys (snd result))
       \<and> set (ev_keys (snd result)) =
           {key. \<exists>val. valueAt props key = Some val
                   \<and> (\<not> isPrimitive val \<or> valueAt (properties n) key \<noteq> Some val)}"
    unfolding Let_def
    by (intro conjI setProperties_keys_set) (simp_all add: setProperties_def Let_def)
  show "map_of (toJS obj) k = valueAt obj k"
    by (rule map_of_toJS)
  show "map_of (spread old new) k =
       (case valueAt new k of Some val \<Rightarrow> Some val | None \<Rightarrow> valueAt old k)"
    by (rule map_of_spread)
  show "ev_keys (snd (setProperties formatData setAttributes props
                        (fst (setProperties formatData setAttributes props n)))) = []"
    if "list_all (\<lambda>(key, val). isPrimitive val) props
        \<and> formatData (JObj (objectOf props)) = JObj (objectOf props)
        \<and> (\<forall>m. properties (setAttributes m) = properties m)"
    using that by (intro setProperties_twice) simp_all
  show "let pre = toJS (properties n);
          next = spread pre [(key, formatData v)];
          result = setProperty formatData setAttributes key v n
      in fst result = setAttributes (n\<lparr>properties := next\<rparr>)
         \<and> ev_preProperties (snd result) = pre
         \<and> ev_properties (snd result) = next
         \<and> map_of next = (map_of pre)(key \<mapsto> formatData v)"
  proof -
    have "map_of (spread (toJS (properties n)) [(key, formatData v)]) k' =
        ((map_of (toJS (properties n)))(key \<mapsto> formatData v)) k'" for k'
      by (simp add: map_of_spread valueAt_def [of "[(key, formatData v)]"]
          valueAt_distinct [symmetric] toJS_def objectOf_distinct)
    then have "map_of (spread (toJS (properties n)) [(key, formatData v)]) =
        (map_of (toJS (properties n)))(key \<mapsto> formatData v)"
      by (rule ext)
    then show ?thesis by (simp add: setProperty_def Let_def)
  qed
qed

theorem setProperties_changed_keys_witness:
  "list_all (\<lambda>(key, val). isPrimitive val) [(''color'', JStr ''red''), (''2'', JNum 3)]
   \<and> set (ev_keys (snd (setProperties (\<lambda>v. v) (\<lambda>m. m) [(''color'', JStr ''red''), (''2'', JNum 3)] exNode)))
       = {''2'', ''color''}
   \<and> ev_keys (snd (setProperties (\<lambda>v. v) (\<lambda>m. m) [(''color'', JStr ''red''), (''2'', JNum 3)] exNode))
       = [''2'', ''color'']
   \<and> properties (fst (setProperties (\<lambda>v. v) (\<lambda>m. m) [(''color'', JStr ''red''), (''2'', JNum 3)] exNode))
       = [(''2'', JNum 3),
          (''labelConfig'', JObj [(''verticle'', JBool False), (''multiple'', JBool False)]),
          (''color'', JStr ''red'')]
   \<and> ev_keys (snd (setProperties (\<lambda>v. v) (\<lambda>m. m) [(''color'', JStr ''red''), (''2'', JNum 3)]
       (fst (setProperties (\<lambda>v. v) (\<lambda>m. m) [(''color'', JStr ''red''), (''2'', JNum 3)] exNode))))
       = []
   \<and> set (ev_keys (snd (setProperties (\<lambda>v. v) (\<lambda>m. m) [(''color'', JStr ''blue''), (''2'', JNum 3)]
       (fst (setProperties (\<lambda>v. v) (\<lambda>m. m) [(''color'', JStr ''red''), (''2'', JNum 3)] exNode)))))
       = {''color''}"
proof -
  let ?ps = "[(''color'', JStr ''red''), (''2'', JNum 3)]"
  let ?n1 = "fst (setProperties (\<lambda>v. v) (\<lambda>m. m) ?ps exNode)"
  note w = setProperties_changed_keys [of exNode "\<lambda>v. v" ?ps "\<lambda>m. m"]
  have h: "list_all (\<lambda>(key, val). isPrimitive val) ?ps"
    by simp
  have o: "objectOf ?ps = [(''2'', JNum 3), (''color'', JStr ''red'')]"
    by (simp add: objectOf_def setKey_def arrayIndex_def digit_of_def string_of_nat.simps
        digit_char_def)
  have a: "set (ev_keys (snd (setProperties (\<lambda>v. v) (\<lambda>m. m) ?ps exNode))) = {''2'', ''color''}"
    using w [THEN conjunct1, unfolded Let_def, THEN conjunct2, THEN conjunct2, THEN conjunct2,
        THEN conjunct2]
    by (auto simp: valueAt_def exNode_fields split: if_splits)
  have a': "ev_keys (snd (setProperties (\<lambda>v. v) (\<lambda>m. m) ?ps exNode)) = [''2'', ''color'']"
    by (simp add: setProperties_keys o valueAt_def exNode_fields)
  have p: "properties ?n1 =
      [(''2'', JNum 3),
       (''labelConfig'', JObj [(''verticle'', JBool False), (''multiple'', JBool False)]),
       (''color'', JStr ''red'')]"
    using w [THEN conjunct1, unfolded Let_def, THEN conjunct1]
    by (simp add: o toJS_def spread_def objectOf_def setKey_def arrayIndex_def digit_of_def
        string_of_nat.simps digit_char_def exNode_fields)
  have b: "ev_keys (snd (setProperties (\<lambda>v. v) (\<lambda>m. m) ?ps ?n1)) = []"
    using w [THEN conjunct2, THEN conjunct2, THEN conjunct2, THEN conjunct1] h by simp
  have c: "set (ev_keys (snd (setProperties (\<lambda>v. v) (\<lambda>m. m)
        [(''color'', JStr ''blue''), (''2'', JNum 3)] ?n1))) = {''color''}"
    using setProperties_changed_keys [of ?n1 "\<lambda>v. v"
        "[(''color'', JStr ''blue''), (''2'', JNum 3)]" "\<lambda>m. m", THEN conjunct1, unfolded Let_def,
        THEN conjunct2, THEN conjunct2, THEN conjunct2, THEN conjunct2]
    unfolding p
    by (auto simp: valueAt_def split: if_splits)
  show ?thesis using h a a' p b c by simp
qed

subsection \<open>Text field and label configuration\<close>

text \<open>
  The operations on the position and on the labels keep the text field in the shape that
  the label configuration asks for; a change of \<^verbatim>\<open>labelConfig\<close> through
  \<^verbatim>\<open>setProperties\<close> does not.
\<close>

lemma setProperties_breaks_shape:
  "text_shape_ok exNode"
  "\<not> text_shape_ok (fst (setProperties (\<lambda>v. v) (\<lambda>m. m)
                          [(''labelConfig'', JObj [(''multiple'', JBool True)])] exNode))"
proof -
  show "text_shape_ok exNode"
    by (simp add: text_shape_ok_def exNode_fields)
  have "node_text exSwitchedNode = TextRecord exLabel"
    by (simp add: exSwitchedNode_eq exNode_fields)
  then have "\<not> text_shape_ok exSwitchedNode"
    by (simp add: text_shape_ok_def exSwitchedNode_labelConfig)
  then show "\<not> text_shape_ok (fst (setProperties (\<lambda>v. v) (\<lambda>m. m)
                          [(''labelConfig'', JObj [(''multiple'', JBool True)])] exNode))"
    by (simp add: exSwitchedNode_def)
qed

lemma text_shape_ok_mapLabels:
  "text_shape_ok n \<Longrightarrow> labelConfig m = labelConfig n \<Longrightarrow>
   node_text m = mapLabels f (node_text n) \<Longrightarrow> text_shape_ok m"
  by (cases "node_text n") (simp_all add: text_shape_ok_def)

lemma move_keeps_shape:
  assumes "text_shape_ok n"
  shows "text_shape_ok (snd (move g dx dy ig n))"
proof -
  obtain ax ay where a: "isAllowMoveByXORY g dx dy ig n = (ax, ay)"
    by (cases "isAllowMoveByXORY g dx dy ig n")
  show ?thesis
    using assms by (rule text_shape_ok_mapLabels) (simp_all add: move_eq [OF assms a])
qed

lemma moveTo_keeps_shape:
  assumes "text_shape_ok n"
  shows "text_shape_ok (snd (moveTo g tx ty ig n))"
  using assms
  by (cases "node_text n")
     (simp_all add: moveTo_def Let_def moveTextIfAny_def moveText_def text_shape_ok_def)

lemma getMoveDistance_keeps_shape:
  assumes "text_shape_ok n"
  shows "text_shape_ok (snd (getMoveDistance g dx dy ig n))"
  using assms
  by (cases "node_text n")
     (simp_all add: getMoveDistance_def Let_def moveTextIfAny_def moveText_def text_shape_ok_def
        split: prod.split)

text \<open>
  \<^verbatim>\<open>addText\<close> keeps it where there is a text field to begin with; on \<^verbatim>\<open>undefined\<close>
  in single mode it leaves the object \<^verbatim>\<open>{isFocus: true}\<close>, which is no label.
\<close>

lemma addText_keeps_shape:
  assumes "text_shape_ok n" "node_text n \<noteq> TextUndefined" "addText newId p n = Inr m"
  shows "text_shape_ok m"
  using assms
  by (cases "node_text n"; cases "multiple (labelConfig n)"; cases "max_labels (labelConfig n)")
     (auto simp: addText_def Let_def text_shape_ok_def split: if_splits bool.splits)

lemma deleteText_keeps_shape:
  assumes "text_shape_ok n"
  shows "text_shape_ok (deleteText info n)"
  using assms
  by (cases "node_text n")
     (simp_all add: deleteText_def text_shape_ok_def isArray_noarg_def split: option.split)

text \<open>
  Two rules that each deny one axis accumulate to \<^verbatim>\<open>{x: false, y: false}\<close>, which is
  no veto: \<^verbatim>\<open>move\<close> then moves neither axis, while \<^verbatim>\<open>moveTo\<close> moves the node all the way.
\<close>

lemma both_axes_denied_example:
  "isAllowMoveNode exGraph 10 10 (exNode\<lparr>moveRules := [yOnlyRule, xOnlyRule]\<rparr>) = MoveAxes False False
   \<and> move exGraph 10 10 False (exNode\<lparr>moveRules := [yOnlyRule, xOnlyRule]\<rparr>) =
       (False, exNode\<lparr>moveRules := [yOnlyRule, xOnlyRule]\<rparr>)
   \<and> moveTo exGraph 110 110 False (exNode\<lparr>moveRules := [yOnlyRule, xOnlyRule]\<rparr>) =
       (True, exNode\<lparr>moveRules := [yOnlyRule, xOnlyRule], node_x := 110, node_y := 110,
                     node_text := TextRecord (exLabel\<lparr>text_x := 100, text_y := 100\<rparr>)\<rparr>)"
  by (simp add: isAllowMoveNode_eq move_def moveTo_def isAllowMoveByXORY_eq Let_def
      moveTextIfAny_def moveText_def exNode_def exGraph_def yOnlyRule_def xOnlyRule_def
      shiftLabel_def exLabel_def labelConfig_def getProp_def)

end
